theory Spec2Isabelle
  imports Complex_Main "HOL-Library.Word"
begin

unbundle bit_operations_syntax

section \<open>JavaScript numbers\<close>

text \<open>
  The recorder is TypeScript running on a JavaScript engine, where every number is an IEEE 754
  double.  A \<open>number\<close> is \<open>NaN\<close>, one of the two infinities, or a finite double given by its
  value, a rational.  The two zeros are one value here: nothing the recorder does with a number
  (arithmetic, \<open>Math.abs\<close>, \<open>Math.min\<close>, \<open>===\<close>, \<open>!=\<close>) tells them apart.
\<close>

datatype number = NaN | PosInfinity | NegInfinity | Finite rat

text \<open>The number of binary digits of a positive integer.\<close>

function bitLength :: "int \<Rightarrow> nat" where
  "bitLength n = (if n \<le> 0 then 0 else Suc (bitLength (n div 2)))"
  by pat_completeness auto
termination
  by (relation "measure nat") auto

declare bitLength.simps [simp del]

definition intPower :: "rat \<Rightarrow> int \<Rightarrow> rat" where
  "intPower b q = (if 0 \<le> q then b ^ nat q else 1 / b ^ nat (- q))"

text \<open>The binary exponent \<open>e\<close> of a rational \<open>x\<close> other than 0, with
  \<open>2 ^ e \<le> |x| < 2 ^ (e + 1)\<close>.\<close>

definition exponentOf :: "rat \<Rightarrow> int" where
  "exponentOf x =
    (if 1 \<le> \<bar>x\<bar> then int (bitLength \<lfloor>\<bar>x\<bar>\<rfloor>) - 1
     else - int (bitLength (\<lceil>1 / \<bar>x\<bar>\<rceil> - 1)))"

text \<open>Rounding to the nearest integer, a tie going to the even one.\<close>

definition roundHalfEven :: "rat \<Rightarrow> int" where
  "roundHalfEven y =
    (let f = \<lfloor>y\<rfloor>; r = y - of_int f
     in if r < 1 / 2 then f else if 1 / 2 < r then f + 1 else if even f then f else f + 1)"

text \<open>
  The double nearest to a rational, ties to even: the value is rounded to a multiple of
  \<open>2 ^ q\<close>, where \<open>q\<close> leaves 53 significant bits and is at least \<open>-1074\<close> (the subnormal
  range).  The largest double is \<open>(2 ^ 53 - 1) * 2 ^ 971\<close>; a value that rounds beyond it gives
  an infinity.
\<close>

definition roundToDouble :: "rat \<Rightarrow> number" where
  "roundToDouble x =
    (if x = 0 then Finite 0
     else let q = max (exponentOf x - 52) (- 1074);
              m = roundHalfEven (x / intPower 2 q)
          in if 971 < q \<or> (q = 971 \<and> 2 ^ 53 \<le> \<bar>m\<bar>)
             then (if 0 < x then PosInfinity else NegInfinity)
             else Finite (of_int m * intPower 2 q))"

fun negate :: "number \<Rightarrow> number" where
  "negate NaN = NaN"
| "negate PosInfinity = NegInfinity"
| "negate NegInfinity = PosInfinity"
| "negate (Finite x) = Finite (- x)"

text \<open>\<open>a + b\<close>, \<open>a - b\<close> and \<open>a * b\<close> on numbers: the exact result, rounded.\<close>

fun number_add :: "number \<Rightarrow> number \<Rightarrow> number" where
  "number_add (Finite x) (Finite y) = roundToDouble (x + y)"
| "number_add NaN b = NaN"
| "number_add a NaN = NaN"
| "number_add PosInfinity NegInfinity = NaN"
| "number_add NegInfinity PosInfinity = NaN"
| "number_add PosInfinity b = PosInfinity"
| "number_add a PosInfinity = PosInfinity"
| "number_add NegInfinity b = NegInfinity"
| "number_add a NegInfinity = NegInfinity"

definition number_subtract :: "number \<Rightarrow> number \<Rightarrow> number" where
  "number_subtract a b = number_add a (negate b)"

definition isNegative :: "number \<Rightarrow> bool" where
  "isNegative a = (case a of NegInfinity \<Rightarrow> True | Finite x \<Rightarrow> x < 0 | _ \<Rightarrow> False)"

definition number_multiply :: "number \<Rightarrow> number \<Rightarrow> number" where
  "number_multiply a b =
    (case (a, b) of
       (Finite x, Finite y) \<Rightarrow> roundToDouble (x * y)
     | _ \<Rightarrow>
         if a = NaN \<or> b = NaN \<or> a = Finite 0 \<or> b = Finite 0 then NaN
         else if isNegative a \<noteq> isNegative b then NegInfinity
         else PosInfinity)"

fun Math_abs :: "number \<Rightarrow> number" where
  "Math_abs NaN = NaN"
| "Math_abs PosInfinity = PosInfinity"
| "Math_abs NegInfinity = PosInfinity"
| "Math_abs (Finite x) = Finite \<bar>x\<bar>"

text \<open>\<open>a < b\<close> on numbers; \<open>NaN\<close> is less than nothing and nothing is less than it.\<close>

fun number_less :: "number \<Rightarrow> number \<Rightarrow> bool" where
  "number_less (Finite x) (Finite y) = (x < y)"
| "number_less NaN b = False"
| "number_less a NaN = False"
| "number_less a NegInfinity = False"
| "number_less NegInfinity b = True"
| "number_less PosInfinity b = False"
| "number_less a PosInfinity = True"

text \<open>\<open>Math.min(...xs)\<close>: \<open>Infinity\<close> for no argument, \<open>NaN\<close> as soon as one argument
  is \<open>NaN\<close>.\<close>

definition number_min :: "number \<Rightarrow> number \<Rightarrow> number" where
  "number_min a b = (if a = NaN \<or> b = NaN then NaN else if number_less b a then b else a)"

fun Math_min :: "number list \<Rightarrow> number" where
  "Math_min [] = PosInfinity"
| "Math_min (x # xs) = number_min x (Math_min xs)"

text \<open>\<open>xs.indexOf(v)\<close> compares with \<open>===\<close>, under which \<open>NaN\<close> equals nothing; the
  result \<open>-1\<close> is \<open>None\<close>.\<close>

definition indexOf :: "number list \<Rightarrow> number \<Rightarrow> nat option" where
  "indexOf xs v =
    (if v \<noteq> NaN \<and> v \<in> set xs then Some (length (takeWhile (\<lambda>y. y \<noteq> v) xs)) else None)"

section \<open>Strings and numbers\<close>

text \<open>A character is a code unit below 256; these are the white space and the line
  terminators among them.\<close>

definition isWhiteSpace :: "char \<Rightarrow> bool" where
  "isWhiteSpace c =
    (c \<in> set [CHR 0x09, CHR 0x0A, CHR 0x0B, CHR 0x0C, CHR 0x0D, CHR '' '', CHR 0xA0])"

text \<open>The value of a character as a digit of a radix up to 36, letters in either case
  counting from ten.\<close>

definition digitOf :: "nat \<Rightarrow> char \<Rightarrow> nat option" where
  "digitOf radix c =
    (let n = of_char c :: nat;
         d = (if 48 \<le> n \<and> n \<le> 57 then Some (n - 48)
              else if 97 \<le> n \<and> n \<le> 122 then Some (n - 87)
              else if 65 \<le> n \<and> n \<le> 90 then Some (n - 55)
              else None)
     in case d of None \<Rightarrow> None | Some v \<Rightarrow> if v < radix then Some v else None)"

definition isDigit :: "nat \<Rightarrow> char \<Rightarrow> bool" where
  "isDigit radix c = (digitOf radix c \<noteq> None)"

definition digitsValue :: "nat \<Rightarrow> string \<Rightarrow> int" where
  "digitsValue radix ds =
    foldl (\<lambda>acc c. acc * int radix + int (case digitOf radix c of None \<Rightarrow> 0 | Some v \<Rightarrow> v)) 0 ds"

text \<open>
  \<open>parseInt(string, radix)\<close>.  Leading white space is skipped and one sign is read; a radix
  of 0 stands for 10, a radix outside 2 to 36 gives \<open>NaN\<close>, and with a radix of 0 or 16 a
  prefix \<open>0x\<close> is dropped and the radix is 16.  Then the longest run of digits of the radix is
  read, and what follows is ignored.  \<open>mathInt\<close> is the integer so read, \<open>None\<close> when there is
  no digit at all; \<open>parseInt\<close> returns the double nearest to it, or \<open>NaN\<close>.  (For a radix of
  10 the language lets an engine replace the digits after the twentieth by zeros; here
  every digit counts.)
\<close>

definition mathInt :: "string \<Rightarrow> nat \<Rightarrow> int option" where
  "mathInt str radix =
    (let S = dropWhile isWhiteSpace str;
         sign = (if S \<noteq> [] \<and> hd S = CHR ''-'' then - 1 else 1);
         S' = (if S \<noteq> [] \<and> (hd S = CHR ''+'' \<or> hd S = CHR ''-'') then tl S else S);
         stripPrefix = (radix = 0 \<or> radix = 16);
         hasPrefix = (stripPrefix \<and> (take 2 S' = ''0x'' \<or> take 2 S' = ''0X''));
         R = (if radix = 0 then (if hasPrefix then 16 else 10) else radix);
         S'' = (if hasPrefix then drop 2 S' else S');
         Z = takeWhile (isDigit R) S''
     in if R < 2 \<or> 36 < R then None
        else if Z = [] then None
        else Some (sign * digitsValue R Z))"

definition parseInt :: "string \<Rightarrow> nat \<Rightarrow> number" where
  "parseInt str radix =
    (case mathInt str radix of None \<Rightarrow> NaN | Some n \<Rightarrow> roundToDouble (of_int n))"

text \<open>\<open>str.split(sep)\<close> for a separator of one character: never the empty array.\<close>

fun js_split :: "string \<Rightarrow> char \<Rightarrow> string list" where
  "js_split [] sep = [[]]"
| "js_split (c # cs) sep =
    (if c = sep then [] # js_split cs sep
     else (case js_split cs sep of
             [] \<Rightarrow> [[c]]
           | p # ps \<Rightarrow> (c # p) # ps))"

text \<open>Reading \<open>v[i]\<close> of an array of numbers for arithmetic: out of range is
  \<open>undefined\<close>, which arithmetic turns into \<open>NaN\<close>.\<close>

definition elementAt :: "number list \<Rightarrow> nat \<Rightarrow> number" where
  "elementAt v i = (if i < length v then v ! i else NaN)"

text \<open>
  The conversion of a string to a number, which \<open>==\<close> applies when it compares a string with
  a number.  Surrounding white space is dropped and the empty string is 0.  What is left must
  be, in full, \<open>Infinity\<close> with an optional sign, a decimal literal with an optional sign
  (digits, with an optional fraction and an optional exponent), or a binary, octal or
  hexadecimal literal with its prefix and no sign; anything else is \<open>NaN\<close>.
\<close>

definition trim :: "string \<Rightarrow> string" where
  "trim s = rev (dropWhile isWhiteSpace (rev (dropWhile isWhiteSpace s)))"

definition nonDecimalLiteral :: "string \<Rightarrow> int option" where
  "nonDecimalLiteral t =
    (let radix = (if take 2 t = ''0x'' \<or> take 2 t = ''0X'' then 16
                  else if take 2 t = ''0o'' \<or> take 2 t = ''0O'' then 8
                  else if take 2 t = ''0b'' \<or> take 2 t = ''0B'' then 2
                  else 0);
         ds = drop 2 t
     in if radix \<noteq> 0 \<and> ds \<noteq> [] \<and> list_all (isDigit radix) ds
        then Some (digitsValue radix ds) else None)"

definition exponentPart :: "string \<Rightarrow> int option" where
  "exponentPart r =
    (if r = [] then Some 0
     else if hd r = CHR ''e'' \<or> hd r = CHR ''E''
     then (let x = tl r;
               sign = (if x \<noteq> [] \<and> hd x = CHR ''-'' then - 1 else 1);
               ds = (if x \<noteq> [] \<and> (hd x = CHR ''+'' \<or> hd x = CHR ''-'') then tl x else x)
           in if ds \<noteq> [] \<and> list_all (isDigit 10) ds then Some (sign * digitsValue 10 ds)
              else None)
     else None)"

definition decimalLiteral :: "string \<Rightarrow> rat option" where
  "decimalLiteral u =
    (let ip = takeWhile (isDigit 10) u;
         r1 = dropWhile (isDigit 10) u;
         dot = (r1 \<noteq> [] \<and> hd r1 = CHR ''.'');
         fp = (if dot then takeWhile (isDigit 10) (tl r1) else []);
         r2 = (if dot then dropWhile (isDigit 10) (tl r1) else r1)
     in if ip = [] \<and> fp = [] then None
        else (case exponentPart r2 of
                None \<Rightarrow> None
              | Some e \<Rightarrow>
                  Some (of_int (digitsValue 10 (ip @ fp)) * intPower 10 (e - int (length fp)))))"

definition StringToNumber :: "string \<Rightarrow> number" where
  "StringToNumber s =
    (let t = trim s;
         negative = (t \<noteq> [] \<and> hd t = CHR ''-'');
         u = (if t \<noteq> [] \<and> (hd t = CHR ''+'' \<or> hd t = CHR ''-'') then tl t else t)
     in if t = [] then Finite 0
        else (case nonDecimalLiteral t of
                Some n \<Rightarrow> roundToDouble (of_int n)
              | None \<Rightarrow>
                  if u = ''Infinity'' then (if negative then NegInfinity else PosInfinity)
                  else (case decimalLiteral u of
                          None \<Rightarrow> NaN
                        | Some x \<Rightarrow> roundToDouble (if negative then - x else x))))"

text \<open>A non-negative integer inside a template literal, as in \<open>`Track${currentTrack}Name`\<close>.\<close>

fun toString :: "nat \<Rightarrow> string" where
  "toString n =
    (if n < 10 then [char_of (48 + n)]
     else toString (n div 10) @ [char_of (48 + n mod 10)])"

section \<open>Resolution matcher\<close>

text \<open>Electron's \<open>Size\<close>: two numbers.\<close>

record Size =
  width :: number
  height :: number

text \<open>The inner \<open>v.split('x').map(v => parseInt(v, 10))\<close>.\<close>

definition numericResolution :: "string \<Rightarrow> number list" where
  "numericResolution v = map (\<lambda>v. parseInt v 10) (js_split v CHR ''x'')"

text \<open>One entry of \<open>indexArray\<close>:
  \<open>Math.abs(((target.width - v[0]) * 2) + ((target.height - v[1]) * 4))\<close>.\<close>

definition indexValue :: "Size \<Rightarrow> number list \<Rightarrow> number" where
  "indexValue target v =
    Math_abs (number_add
      (number_multiply (number_subtract (width target) (elementAt v 0)) (Finite 2))
      (number_multiply (number_subtract (height target) (elementAt v 1)) (Finite 4)))"

text \<open>\<open>getClosestResolution\<close>; the result \<open>None\<close> is \<open>undefined\<close>, which is what
  \<open>resolutions[-1]\<close> reads.\<close>

definition getClosestResolution :: "string list \<Rightarrow> Size \<Rightarrow> string option" where
  "getClosestResolution resolutions target =
    (let numericResolutions = map numericResolution resolutions;
         indexArray = map (indexValue target) numericResolutions;
         minValue = Math_min indexArray
     in case indexOf indexArray minValue of
          None \<Rightarrow> None
        | Some i \<Rightarrow> Some (resolutions ! i))"

text \<open>
  The reading of the specification: a candidate names a pair of integers, the integers that
  the two calls of \<open>parseInt\<close> read before any rounding, and the distance of a pair from a
  target of finite width and height is \<open>|2 (target.w - w) + 4 (target.h - h)|\<close> in exact
  arithmetic.
\<close>

definition parsedSize :: "string \<Rightarrow> (int \<times> int) option" where
  "parsedSize r =
    (case js_split r CHR ''x'' of
       w # h # rest \<Rightarrow>
         (case mathInt w 10 of
            None \<Rightarrow> None
          | Some w' \<Rightarrow> (case mathInt h 10 of None \<Rightarrow> None | Some h' \<Rightarrow> Some (w', h')))
     | _ \<Rightarrow> None)"

definition spec_distance :: "rat \<times> rat \<Rightarrow> int \<times> int \<Rightarrow> rat" where
  "spec_distance target wh =
    \<bar>2 * (fst target - of_int (fst wh)) + 4 * (snd target - of_int (snd wh))\<bar>"

section \<open>Values of the settings tree\<close>

text \<open>
  Settings travel through parameters typed \<open>any\<close>.  The values that occur are
  \<open>undefined\<close>, \<open>null\<close>, booleans, numbers and strings.
\<close>

datatype jsval = JUndefined | JNull | JBool bool | JNumber number | JStr string

text \<open>\<open>x == y\<close>.  A boolean operand is first replaced by \<open>1\<close> or \<open>0\<close>.\<close>

definition unbool :: "jsval \<Rightarrow> jsval" where
  "unbool v = (case v of JBool b \<Rightarrow> JNumber (Finite (if b then 1 else 0)) | _ \<Rightarrow> v)"

fun looseEqPrim :: "jsval \<Rightarrow> jsval \<Rightarrow> bool" where
  "looseEqPrim JUndefined JUndefined = True"
| "looseEqPrim JUndefined JNull = True"
| "looseEqPrim JNull JUndefined = True"
| "looseEqPrim JNull JNull = True"
| "looseEqPrim (JNumber a) (JNumber b) = (a \<noteq> NaN \<and> a = b)"
| "looseEqPrim (JStr a) (JStr b) = (a = b)"
| "looseEqPrim (JNumber a) (JStr b) = (a \<noteq> NaN \<and> StringToNumber b = a)"
| "looseEqPrim (JStr a) (JNumber b) = (b \<noteq> NaN \<and> StringToNumber a = b)"
| "looseEqPrim _ _ = False"

definition looseEq :: "jsval \<Rightarrow> jsval \<Rightarrow> bool" where
  "looseEq x y = looseEqPrim (unbool x) (unbool y)"

section \<open>The engine as the recorder sees it\<close>

record parameter =
  param_name :: string
  currentValue :: jsval
  param_values :: "(string \<times> jsval) list list"

record subCategory =
  nameSubCategory :: string
  parameters :: "parameter list"

record input =
  input_id :: string
  input_name :: string
  settings_device_id :: string
  audioMixers :: int
  muted :: bool

datatype source = Scene string | Input input

record device =
  device_id :: string
  device_name :: string

text \<open>
  The state of the native engine that the functions below read and write:
  \<^item> \<open>settings category\<close> is \<open>OBS_settings_getSettings(category).data\<close>, \<open>None\<close> when the
    engine has no data for the category;
  \<^item> \<open>saved\<close> lists the calls of \<open>OBS_settings_saveSettings\<close>, oldest first;
  \<^item> \<open>setSettingLog\<close> lists the arguments of the calls of \<open>setSetting\<close>, which the function
    prints with \<open>console.debug\<close> before anything else;
  \<^item> \<open>outputSource index\<close> is the source registered for the index, which
    \<open>Global.getOutputSource(index)\<close> returns, \<open>None\<close> for \<open>undefined\<close>;
  \<^item> \<open>queried\<close> lists the indexes that \<open>Global.getOutputSource\<close> was called with, oldest
    first;
  \<^item> \<open>released\<close> and \<open>removed\<close> list the sources on which \<open>release()\<close> and \<open>remove()\<close>
    were called.

  The native engine is not among the sources.  A comment in \<open>clearSources\<close> gives it at most
  64 output sources; what it does with an index outside its own range is not known from the
  sources, and the table here keeps for every index what \<open>setOutputSource\<close> was last called
  with.
\<close>

record osn =
  settings :: "string \<Rightarrow> subCategory list option"
  saved :: "(string \<times> subCategory list) list"
  setSettingLog :: "(string \<times> string \<times> jsval) list"
  outputSource :: "nat \<Rightarrow> source option"
  queried :: "nat list"
  released :: "source list"
  removed :: "source list"

datatype error =
    TypeError
  | NotInitialised
  | SignalTimeout string
  | UnexpectedSignalType
  | UnexpectedSignalValue

definition OBS_settings_saveSettings :: "string \<Rightarrow> subCategory list \<Rightarrow> osn \<Rightarrow> osn" where
  "OBS_settings_saveSettings category tree s =
    s\<lparr>settings := (settings s)(category \<mapsto> tree), saved := saved s @ [(category, tree)]\<rparr>"

definition getOutputSource :: "nat \<Rightarrow> osn \<Rightarrow> source option \<times> osn" where
  "getOutputSource index s = (outputSource s index, s\<lparr>queried := queried s @ [index]\<rparr>)"

definition setOutputSource :: "nat \<Rightarrow> source option \<Rightarrow> osn \<Rightarrow> osn" where
  "setOutputSource index src s = s\<lparr>outputSource := (outputSource s)(index := src)\<rparr>"

definition release :: "source \<Rightarrow> osn \<Rightarrow> osn" where
  "release src s = s\<lparr>released := released s @ [src]\<rparr>"

definition remove :: "source \<Rightarrow> osn \<Rightarrow> osn" where
  "remove src s = s\<lparr>removed := removed s @ [src]\<rparr>"

section \<open>Engine settings bridge\<close>

text \<open>The two nested \<open>forEach\<close> loops of \<open>setSetting\<close>.  They overwrite every parameter
  of the given name and leave in \<open>oldValue\<close> the former value of the last one met.\<close>

fun forEach_param :: "string \<Rightarrow> jsval \<Rightarrow> parameter list \<Rightarrow> jsval \<Rightarrow> parameter list \<times> jsval" where
  "forEach_param parameter value [] oldValue = ([], oldValue)"
| "forEach_param parameter value (param # params) oldValue =
    (if param_name param = parameter
     then (case forEach_param parameter value params (currentValue param) of
             (params', oldValue') \<Rightarrow> (param\<lparr>currentValue := value\<rparr> # params', oldValue'))
     else (case forEach_param parameter value params oldValue of
             (params', oldValue') \<Rightarrow> (param # params', oldValue')))"

fun forEach_subCategory ::
  "string \<Rightarrow> jsval \<Rightarrow> subCategory list \<Rightarrow> jsval \<Rightarrow> subCategory list \<times> jsval" where
  "forEach_subCategory parameter value [] oldValue = ([], oldValue)"
| "forEach_subCategory parameter value (subCategory # rest) oldValue =
    (case forEach_param parameter value (parameters subCategory) oldValue of
       (params', oldValue') \<Rightarrow>
         (case forEach_subCategory parameter value rest oldValue' of
            (rest', oldValue'') \<Rightarrow> (subCategory\<lparr>parameters := params'\<rparr> # rest', oldValue'')))"

text \<open>\<open>setSetting\<close>.  Without data for the category, \<open>settings.forEach\<close> is a call on
  \<open>undefined\<close> and raises.  The settings are saved when \<open>value != oldValue\<close>.\<close>

definition setSetting :: "string \<Rightarrow> string \<Rightarrow> jsval \<Rightarrow> osn \<Rightarrow> error + osn" where
  "setSetting category parameter value s0 =
    (let s = s0\<lparr>setSettingLog := setSettingLog s0 @ [(category, parameter, value)]\<rparr>
     in case settings s category of
          None \<Rightarrow> Inl TypeError
        | Some tree \<Rightarrow>
            (case forEach_subCategory parameter value tree JUndefined of
               (tree', oldValue) \<Rightarrow>
                 if \<not> looseEq value oldValue
                 then Inr (OBS_settings_saveSettings category tree' s)
                 else Inr s))"

text \<open>\<open>Object.values(value)[0]\<close> of an entry of \<open>values\<close>, given as the list of its
  properties.\<close>

definition firstValue :: "(string \<times> jsval) list \<Rightarrow> jsval" where
  "firstValue entry = (case entry of [] \<Rightarrow> JUndefined | (k, v) # rest \<Rightarrow> v)"

text \<open>\<open>getAvailableValues\<close>; \<open>None\<close> is the \<open>undefined\<close> of a bare \<open>return\<close>.  An empty
  array passes the test \<open>!categorySettings\<close>, so only missing data takes the first exit.\<close>

definition getAvailableValues :: "string \<Rightarrow> string \<Rightarrow> string \<Rightarrow> osn \<Rightarrow> jsval list option" where
  "getAvailableValues category subcategory parameter s =
    (case settings s category of
       None \<Rightarrow> None
     | Some categorySettings \<Rightarrow>
         (case find (\<lambda>sub. nameSubCategory sub = subcategory) categorySettings of
            None \<Rightarrow> None
          | Some subcategorySettings \<Rightarrow>
              (case find (\<lambda>param. param_name param = parameter) (parameters subcategorySettings) of
                 None \<Rightarrow> None
               | Some parameterSettings \<Rightarrow> Some (map firstValue (param_values parameterSettings)))))"

text \<open>\<open>setOBSVideoResolution\<close>.  \<open>getClosestResolution\<close> calls \<open>map\<close> on its first
  argument and \<open>split\<close> on each element, so \<open>undefined\<close> or an element that is not a string
  raises.\<close>

definition asString :: "jsval \<Rightarrow> string option" where
  "asString v = (case v of JStr str \<Rightarrow> Some str | _ \<Rightarrow> None)"

definition setOBSVideoResolution :: "Size \<Rightarrow> string \<Rightarrow> osn \<Rightarrow> error + osn" where
  "setOBSVideoResolution res paramString s =
    (case getAvailableValues ''Video'' ''Untitled'' paramString s of
       None \<Rightarrow> Inl TypeError
     | Some availableValues \<Rightarrow>
         (case those (map asString availableValues) of
            None \<Rightarrow> Inl TypeError
          | Some availableResolutions \<Rightarrow>
              (case getClosestResolution availableResolutions res of
                 None \<Rightarrow> setSetting ''Video'' paramString JUndefined s
               | Some closestResolution \<Rightarrow> setSetting ''Video'' paramString (JStr closestResolution) s)))"

section \<open>Audio track allocator\<close>

text \<open>\<open>1 | (1 << currentTrack-1)\<close>: both operators work on 32-bit integers, the shift
  count is taken modulo 32 and the result is read as a signed 32-bit integer.\<close>

definition trackMask :: "nat \<Rightarrow> int" where
  "trackMask currentTrack =
    sint ((1 :: 32 word) OR push_bit (nat ((int currentTrack - 1) mod 32)) (1 :: 32 word))"

text \<open>The body of the two \<open>forEach\<close> loops over the devices, which differ in the kind and
  name of the source they create and in the selected device id they compare with.  The
  running \<open>currentTrack\<close> is threaded through.\<close>

definition audioSource :: "string \<Rightarrow> string \<Rightarrow> string \<Rightarrow> device \<Rightarrow> nat \<Rightarrow> source" where
  "audioSource kind name selectedId dev currentTrack =
    Input \<lparr>input_id = kind, input_name = name, settings_device_id = device_id dev,
           audioMixers = trackMask currentTrack,
           muted = (selectedId = ''none'' \<or> (selectedId \<noteq> ''all'' \<and> device_id dev \<noteq> selectedId))\<rparr>"

fun forEach_device ::
  "string \<Rightarrow> string \<Rightarrow> string \<Rightarrow> device list \<Rightarrow> nat \<Rightarrow> osn \<Rightarrow> error + (nat \<times> osn)" where
  "forEach_device kind name selectedId [] currentTrack s = Inr (currentTrack, s)"
| "forEach_device kind name selectedId (dev # devices) currentTrack s =
    (case setSetting ''Output'' (''Track'' @ toString currentTrack @ ''Name'')
            (JStr (device_name dev)) s of
       Inl e \<Rightarrow> Inl e
     | Inr s1 \<Rightarrow>
         forEach_device kind name selectedId devices (currentTrack + 1)
           (release (audioSource kind name selectedId dev currentTrack)
              (setOutputSource currentTrack
                 (Some (audioSource kind name selectedId dev currentTrack)) s1)))"

text \<open>\<open>setupSources\<close> as \<open>src/main/obsRecorder.ts\<close> has it.  The devices that
  \<open>getAvailableAudioInputDevices()\<close> and \<open>getAvailableAudioOutputDevices()\<close> enumerate
  are arguments.\<close>

definition setupSources_obsRecorder ::
  "source \<Rightarrow> string \<Rightarrow> string \<Rightarrow> device list \<Rightarrow> device list \<Rightarrow> osn \<Rightarrow> error + osn" where
  "setupSources_obsRecorder scene audioInputDeviceId audioOutputDeviceId inputDevices outputDevices s =
    (case setSetting ''Output'' ''Track1Name'' (JStr ''Mixed: all sources'')
            (setOutputSource 1 (Some scene) s) of
       Inl e \<Rightarrow> Inl e
     | Inr s1 \<Rightarrow>
         (case forEach_device ''wasapi_input_capture'' ''mic-audio'' audioInputDeviceId
                 inputDevices 2 s1 of
            Inl e \<Rightarrow> Inl e
          | Inr (currentTrack, s2) \<Rightarrow>
              (case forEach_device ''wasapi_output_capture'' ''desktop-audio'' audioOutputDeviceId
                      outputDevices currentTrack s2 of
                 Inl e \<Rightarrow> Inl e
               | Inr (currentTrack', s3) \<Rightarrow>
                   setSetting ''Output'' ''RecTracks''
                     (JNumber (parseInt (replicate (currentTrack' - 1) CHR ''1'') 2)) s3)))"

text \<open>The loop of \<open>clearSources\<close>, \<open>for (let index = 1; index < 64; index++)\<close>, from a
  given \<open>index\<close> on.\<close>

function clearSources_loop :: "nat \<Rightarrow> osn \<Rightarrow> error + osn" where
  "clearSources_loop index s =
    (if index < 64
     then (case getOutputSource index s of
             (None, s0) \<Rightarrow> clearSources_loop (index + 1) s0
           | (Some src, s0) \<Rightarrow>
               (case setSetting ''Output'' (''Track'' @ toString index @ ''Name'') (JStr '''') s0 of
                  Inl e \<Rightarrow> Inl e
                | Inr s1 \<Rightarrow>
                    clearSources_loop (index + 1)
                      (remove src (release src (setOutputSource index None s1)))))
     else Inr s)"
  by pat_completeness auto
termination
  by (relation "measure (\<lambda>(index, s). 64 - index)") (auto simp: getOutputSource_def)

definition clearSources :: "osn \<Rightarrow> error + osn" where
  "clearSources s =
    (case clearSources_loop 1 s of
       Inl e \<Rightarrow> Inl e
     | Inr s' \<Rightarrow> setSetting ''Output'' ''RecTracks'' (JNumber (Finite 0)) s')"

text \<open>\<open>setupSources\<close> of the later revision, which clears first.\<close>

definition setupSources ::
  "source \<Rightarrow> string \<Rightarrow> string \<Rightarrow> device list \<Rightarrow> device list \<Rightarrow> osn \<Rightarrow> error + osn" where
  "setupSources scene audioInputDeviceId audioOutputDeviceId inputDevices outputDevices s =
    (case clearSources s of
       Inl e \<Rightarrow> Inl e
     | Inr s' \<Rightarrow>
         setupSources_obsRecorder scene audioInputDeviceId audioOutputDeviceId
           inputDevices outputDevices s')"

section \<open>Signal channel and recording commands\<close>

record signalInfo =
  signal_type :: string
  signal :: string

text \<open>
  The engine hands every signal to a callback that pushes it on \<open>waitQueue\<close>, and
  \<open>assertNextSignal\<close> races \<open>waitQueue.shift()\<close> against a timer of 5000 ms.  The package
  \<open>wait-queue\<close> is not among the sources; what is taken of it is that \<open>shift()\<close> on an empty
  queue stays pending until an item is pushed, that pending calls are served in the order in
  which they were made, and that nothing withdraws a pending call.  So a race that the timer
  wins leaves its \<open>shift()\<close> pending, and that call takes the next item the engine pushes.

  \<^item> \<open>signals\<close> is what the engine does from now on, in order: \<open>Item\<close> is a signal it
    pushes, and \<open>Timer\<close> says that the timer of the race then in progress fires before the
    next signal is pushed.  Past the end of the list the engine pushes nothing more.
  \<^item> \<open>pendingShifts\<close> counts the calls of \<open>shift()\<close> that earlier races have left pending.
  \<^item> \<open>unhandled\<close> collects the rejections of promises that nobody awaits.
\<close>

datatype delivery = Item signalInfo | Timer

record recorder =
  obsInitialized :: bool
  startRecordingCalls :: nat
  stopRecordingCalls :: nat
  signals :: "delivery list"
  pendingShifts :: nat
  unhandled :: "error list"

text \<open>The race of one \<open>assertNextSignal\<close>, given the number of calls of \<open>shift()\<close> pending
  before its own and what the engine does: the item its own \<open>shift()\<close> is served, if any
  before the timer fires, the number of calls pending afterwards, and what the engine has
  still to do.\<close>

fun Promise_race :: "nat \<Rightarrow> delivery list \<Rightarrow> signalInfo option \<times> nat \<times> delivery list" where
  "Promise_race pending [] = (None, pending + 1, [])"
| "Promise_race pending (Timer # rest) = (None, pending + 1, rest)"
| "Promise_race 0 (Item signalInfo # rest) = (Some signalInfo, 0, rest)"
| "Promise_race (Suc pending) (Item signalInfo # rest) = Promise_race pending rest"

definition assertNextSignal :: "string \<Rightarrow> recorder \<Rightarrow> error option \<times> recorder" where
  "assertNextSignal value r =
    (case Promise_race (pendingShifts r) (signals r) of
       (None, pending, rest) \<Rightarrow>
         (Some (SignalTimeout value), r\<lparr>signals := rest, pendingShifts := pending\<rparr>)
     | (Some signalInfo, pending, rest) \<Rightarrow>
         if signal_type signalInfo \<noteq> ''recording''
         then (Some UnexpectedSignalType, r\<lparr>signals := rest, pendingShifts := pending\<rparr>)
         else if signal signalInfo \<noteq> value
         then (Some UnexpectedSignalValue, r\<lparr>signals := rest, pendingShifts := pending\<rparr>)
         else (None, r\<lparr>signals := rest, pendingShifts := pending\<rparr>))"

definition OBS_service_startRecording :: "recorder \<Rightarrow> recorder" where
  "OBS_service_startRecording r = r\<lparr>startRecordingCalls := startRecordingCalls r + 1\<rparr>"

definition OBS_service_stopRecording :: "recorder \<Rightarrow> recorder" where
  "OBS_service_stopRecording r = r\<lparr>stopRecordingCalls := stopRecordingCalls r + 1\<rparr>"

text \<open>\<open>start\<close> and \<open>stop\<close> with every assertion awaited; the first component of the
  result is the error the returned promise is rejected with, \<open>None\<close> when it is fulfilled.\<close>

definition start :: "recorder \<Rightarrow> error option \<times> recorder" where
  "start r =
    (if \<not> obsInitialized r then (Some NotInitialised, r)
     else assertNextSignal ''start'' (OBS_service_startRecording r))"

definition stop :: "recorder \<Rightarrow> error option \<times> recorder" where
  "stop r =
    (case assertNextSignal ''stopping'' (OBS_service_stopRecording r) of
       (Some e, r1) \<Rightarrow> (Some e, r1)
     | (None, r1) \<Rightarrow>
         (case assertNextSignal ''stop'' r1 of
            (Some e, r2) \<Rightarrow> (Some e, r2)
          | (None, r2) \<Rightarrow> assertNextSignal ''wrote'' r2))"

text \<open>\<open>ObsRecorder.start\<close> of \<open>src/main/obsRecorder.ts\<close> calls \<open>assertNextSignal\<close> without
  \<open>await\<close>: the promise of \<open>start\<close> is fulfilled whatever the assertion comes to, and a
  failed assertion is a rejection left unhandled.  \<open>ObsSignal.Start\<close> is declared outside the
  sources and is an argument.\<close>

definition ObsRecorder_start :: "string \<Rightarrow> recorder \<Rightarrow> error option \<times> recorder" where
  "ObsRecorder_start ObsSignal_Start r =
    (if \<not> obsInitialized r then (Some NotInitialised, r)
     else (case assertNextSignal ObsSignal_Start (OBS_service_startRecording r) of
             (None, r1) \<Rightarrow> (None, r1)
           | (Some e, r1) \<Rightarrow> (None, r1\<lparr>unhandled := unhandled r1 @ [e]\<rparr>)))"

section \<open>Observations used in the properties\<close>

text \<open>The number of audio sources registered at the indexes 1 to 64, the 64 slots as the
  specification counts them.\<close>

definition isAudioSource :: "source option \<Rightarrow> bool" where
  "isAudioSource src = (case src of None \<Rightarrow> False | Some (Scene n) \<Rightarrow> False | Some (Input i) \<Rightarrow> True)"

definition registeredAudioSources :: "osn \<Rightarrow> nat" where
  "registeredAudioSources s =
    length (filter (\<lambda>index. isAudioSource (outputSource s index)) [1..<65])"

text \<open>\<open>reconfigure\<close> ends with a call of \<open>setupSources\<close>, and nothing else in it touches the
  output slots.  \<open>setupSources_each\<close> runs that call for each reconfiguration of a list,
  given as the name of the scene, the two selected device ids and the devices enumerated at
  the time.\<close>

type_synonym rebuild = "string \<times> string \<times> string \<times> device list \<times> device list"

fun setupSources_each :: "rebuild list \<Rightarrow> osn \<Rightarrow> error + osn" where
  "setupSources_each [] s = Inr s"
| "setupSources_each ((sceneName, audioInputDeviceId, audioOutputDeviceId, inputDevices, outputDevices) # rest) s =
    (case setupSources (Scene sceneName) audioInputDeviceId audioOutputDeviceId inputDevices outputDevices s of
       Inl e \<Rightarrow> Inl e
     | Inr s' \<Rightarrow> setupSources_each rest s')"

definition devicesOf :: "rebuild \<Rightarrow> device list" where
  "devicesOf r = (case r of (sceneName, audioInputDeviceId, audioOutputDeviceId, inputDevices, outputDevices)
                   \<Rightarrow> inputDevices @ outputDevices)"

section \<open>Small states for the examples\<close>

definition exampleOutput :: "subCategory list" where
  "exampleOutput =
    [\<lparr>nameSubCategory = ''Untitled'',
      parameters =
        [\<lparr>param_name = ''Mode'', currentValue = JStr ''Simple'',
          param_values = [[(''Simple'', JStr ''Simple'')], [(''Advanced'', JStr ''Advanced'')]]\<rparr>]\<rparr>,
     \<lparr>nameSubCategory = ''Recording'',
      parameters =
        [\<lparr>param_name = ''RecFormat'', currentValue = JStr ''mp4'',
          param_values = [[(''flv'', JStr ''flv'')], [(''mp4'', JStr ''mp4'')]]\<rparr>,
         \<lparr>param_name = ''RecTracks'', currentValue = JNumber (Finite 1), param_values = []\<rparr>]\<rparr>]"

definition exampleVideo :: "subCategory list" where
  "exampleVideo =
    [\<lparr>nameSubCategory = ''Untitled'',
      parameters =
        [\<lparr>param_name = ''Base'', currentValue = JStr ''1920x1080'',
          param_values = [[(''1280x720'', JStr ''1280x720'')], [(''1920x1080'', JStr ''1920x1080'')]]\<rparr>,
         \<lparr>param_name = ''Output'', currentValue = JStr ''1280x720'', param_values = []\<rparr>]\<rparr>]"

definition exampleEngine :: osn where
  "exampleEngine =
    \<lparr>settings = (\<lambda>category. if category = ''Output'' then Some exampleOutput
                             else if category = ''Video'' then Some exampleVideo
                             else None),
     saved = [], setSettingLog = [], outputSource = (\<lambda>index. None), queried = [],
     released = [], removed = []\<rparr>"

definition mic :: device where
  "mic = \<lparr>device_id = ''mic-1'', device_name = ''Microphone''\<rparr>"

definition headset :: device where
  "headset = \<lparr>device_id = ''mic-2'', device_name = ''Headset''\<rparr>"

definition speakers :: device where
  "speakers = \<lparr>device_id = ''out-1'', device_name = ''Speakers''\<rparr>"

definition recording :: "string \<Rightarrow> delivery" where
  "recording value = Item \<lparr>signal_type = ''recording'', signal = value\<rparr>"

definition exampleRecorder :: "bool \<Rightarrow> delivery list \<Rightarrow> recorder" where
  "exampleRecorder initialized deliveries =
    \<lparr>obsInitialized = initialized, startRecordingCalls = 0, stopRecordingCalls = 0,
     signals = deliveries, pendingShifts = 0, unhandled = []\<rparr>"


section \<open>Properties of the rounding\<close>

lemma bitLength_positive: "0 < n \<Longrightarrow> 0 < bitLength n"
  by (subst bitLength.simps) simp

lemma bitLength_le: "n < 2 ^ k \<Longrightarrow> bitLength n \<le> k"
proof (induction k arbitrary: n)
  case 0
  then show ?case by (subst bitLength.simps) simp
next
  case (Suc k)
  show ?case
  proof (cases "n \<le> 0")
    case True
    then show ?thesis by (subst bitLength.simps) simp
  next
    case False
    from Suc.prems have "n div 2 < 2 ^ k" by simp
    then have "bitLength (n div 2) \<le> k" by (rule Suc.IH)
    with False show ?thesis by (subst bitLength.simps) simp
  qed
qed

lemma int_div_less:
  assumes "(a::int) < b * 2 ^ p"
  shows "a div 2 ^ p < b"
proof (rule ccontr)
  assume "\<not> a div 2 ^ p < b"
  then have "b \<le> a div 2 ^ p" by simp
  then have "b * 2 ^ p \<le> (a div 2 ^ p) * 2 ^ p"
    by (rule mult_right_mono) simp
  moreover have "(a div 2 ^ p) * 2 ^ p + a mod 2 ^ p = a"
    by (rule div_mult_mod_eq)
  moreover have "0 \<le> a mod 2 ^ p"
    by (rule pos_mod_sign) simp
  ultimately show False using assms by linarith
qed

lemma roundHalfEven_of_int [simp]: "roundHalfEven (of_int k) = k"
  by (simp add: roundHalfEven_def)

text \<open>A multiple of \<open>2 ^ -p\<close> that fits into 53 bits is a double.\<close>

lemma roundToDouble_dyadic:
  assumes k: "\<bar>k\<bar> < 2 ^ 53" and p: "p \<le> 52"
  shows "roundToDouble (of_int k / 2 ^ p) = Finite (of_int k / 2 ^ p)"
proof (cases "k = 0")
  case True
  then show ?thesis by (simp add: roundToDouble_def)
next
  case False
  define x :: rat where "x = of_int k / 2 ^ p"
  have nz: "x \<noteq> 0" unfolding x_def using False by simp
  have ax: "\<bar>x\<bar> = of_int \<bar>k\<bar> / of_int (2 ^ p)"
    unfolding x_def by simp
  have e: "exponentOf x \<le> 52 - int p"
  proof (cases "1 \<le> \<bar>x\<bar>")
    case True
    have fl: "\<lfloor>\<bar>x\<bar>\<rfloor> = \<bar>k\<bar> div 2 ^ p"
      unfolding ax by (rule floor_divide_of_int_eq)
    have "(2::int) ^ 53 = 2 ^ (53 - p) * 2 ^ p"
      using p by (simp add: power_add [symmetric])
    with k have "\<bar>k\<bar> < 2 ^ (53 - p) * 2 ^ p" by simp
    then have "\<bar>k\<bar> div 2 ^ p < 2 ^ (53 - p)"
      by (rule int_div_less)
    then have "bitLength (\<bar>k\<bar> div 2 ^ p) \<le> 53 - p" by (rule bitLength_le)
    then have "int (bitLength (\<bar>k\<bar> div 2 ^ p)) - 1 \<le> 52 - int p"
      using p by simp
    with True fl show ?thesis by (simp add: exponentOf_def)
  next
    case False
    then have "exponentOf x = - int (bitLength (\<lceil>1 / \<bar>x\<bar>\<rceil> - 1))"
      by (simp add: exponentOf_def)
    then show ?thesis using p by simp
  qed
  define n where "n = nat (- max (exponentOf x - 52) (- 1074))"
  have q: "max (exponentOf x - 52) (- 1074) = - int n"
    unfolding n_def using e by simp
  have pn: "p \<le> n" unfolding n_def using e p by simp
  have pw: "intPower 2 (- int n) = 1 / 2 ^ n"
    by (simp add: intPower_def)
  have split: "(2::rat) ^ n = 2 ^ (n - p) * 2 ^ p"
    using pn by (simp add: power_add [symmetric])
  have m: "roundHalfEven (x / intPower 2 (- int n)) = k * 2 ^ (n - p)"
  proof -
    have "x / intPower 2 (- int n) = of_int (k * 2 ^ (n - p))"
      unfolding pw x_def split by simp
    then show ?thesis by (simp only: roundHalfEven_of_int)
  qed
  have r: "(of_int (k * 2 ^ (n - p)) :: rat) * intPower 2 (- int n) = x"
    unfolding pw x_def split by simp
  have "roundToDouble x = Finite x"
    unfolding roundToDouble_def Let_def q m r using nz by simp
  then show ?thesis unfolding x_def .
qed

lemma roundToDouble_of_int:
  assumes "\<bar>k\<bar> < 2 ^ 53"
  shows "roundToDouble (of_int k) = Finite (of_int k)"
  using roundToDouble_dyadic [OF assms, of 0] by simp

lemma roundToDouble_numeral:
  "(numeral n :: int) < 2 ^ 53 \<Longrightarrow> roundToDouble (numeral n) = Finite (numeral n)"
  using roundToDouble_of_int [of "numeral n"] by simp

lemma roundToDouble_neg_numeral:
  "(numeral n :: int) < 2 ^ 53 \<Longrightarrow> roundToDouble (- numeral n) = Finite (- numeral n)"
  using roundToDouble_of_int [of "- numeral n"] by simp

lemma roundToDouble_0_1 [simp]:
  "roundToDouble 0 = Finite 0" "roundToDouble 1 = Finite 1"
  using roundToDouble_of_int [of 0] roundToDouble_of_int [of 1] by simp_all

lemma bitLength_bounds:
  "0 < n \<Longrightarrow> 2 ^ (bitLength n - 1) \<le> n \<and> n < 2 ^ bitLength n"
proof (induction n rule: bitLength.induct)
  case (1 n)
  have b: "bitLength n = Suc (bitLength (n div 2))"
    using "1.prems" by (subst bitLength.simps) simp
  show ?case
  proof (cases "n div 2 \<le> 0")
    case True
    with "1.prems" have "n = 1" by simp
    then show ?thesis
      by (simp add: bitLength.simps [of 1] bitLength.simps [of 0])
  next
    case False
    then have pos: "0 < n div 2" by simp
    have "\<not> n \<le> 0" using "1.prems" by simp
    from "1.IH" [OF this pos]
    have lo: "2 ^ (bitLength (n div 2) - 1) \<le> n div 2" and hi: "n div 2 < 2 ^ bitLength (n div 2)"
      by simp_all
    have bp: "0 < bitLength (n div 2)" using pos by (rule bitLength_positive)
    then have sp: "(2::int) ^ bitLength (n div 2) = 2 * 2 ^ (bitLength (n div 2) - 1)"
      by (cases "bitLength (n div 2)") simp_all
    have d: "2 * (n div 2) \<le> n" "n < 2 * (n div 2) + 2"
      by simp_all
    have "(2::int) ^ (bitLength n - 1) \<le> n"
      unfolding b using lo d sp by simp
    moreover have "n < 2 ^ bitLength n"
      unfolding b using hi d by simp
    ultimately show ?thesis by simp
  qed
qed

text \<open>The exponent that \<open>exponentOf\<close> computes is the binary exponent.\<close>

lemma exponentOf_bounds:
  assumes "x \<noteq> 0"
  shows "intPower 2 (exponentOf x) \<le> \<bar>x\<bar> \<and> \<bar>x\<bar> < intPower 2 (exponentOf x + 1)"
proof (cases "1 \<le> \<bar>x\<bar>")
  case True
  define n where "n = \<lfloor>\<bar>x\<bar>\<rfloor>"
  have n: "0 < n" unfolding n_def using True by simp
  have e: "exponentOf x = int (bitLength n) - 1"
    using True by (simp add: exponentOf_def n_def)
  have bp: "0 < bitLength n" using n by (rule bitLength_positive)
  from bitLength_bounds [OF n]
  have lo: "2 ^ (bitLength n - 1) \<le> n" and hi: "n < 2 ^ bitLength n" by simp_all
  have p1: "intPower 2 (int (bitLength n) - 1) = 2 ^ (bitLength n - 1)"
    using bp by (simp add: intPower_def nat_diff_distrib')
  have p2: "intPower 2 (int (bitLength n) - 1 + 1) = 2 ^ bitLength n"
    by (simp add: intPower_def)
  have "(of_int (2 ^ (bitLength n - 1)) :: rat) \<le> of_int n"
    using lo by (simp only: of_int_le_iff)
  also have "\<dots> \<le> \<bar>x\<bar>" unfolding n_def by (rule of_int_floor_le)
  finally have a: "(2::rat) ^ (bitLength n - 1) \<le> \<bar>x\<bar>" by simp
  have "n + 1 \<le> 2 ^ bitLength n" using hi by simp
  then have "(of_int (n + 1) :: rat) \<le> of_int (2 ^ bitLength n)"
    by (simp only: of_int_le_iff)
  moreover have "\<bar>x\<bar> < of_int (n + 1)"
    unfolding n_def using floor_correct [of "\<bar>x\<bar>"] by simp
  ultimately have b: "\<bar>x\<bar> < 2 ^ bitLength n" by simp
  show ?thesis unfolding e p1 p2 using a b by simp
next
  case False
  define y where "y = 1 / \<bar>x\<bar>"
  define m where "m = \<lceil>y\<rceil> - 1"
  have ax: "0 < \<bar>x\<bar>" using assms by simp
  have y1: "1 < y" unfolding y_def using False ax by simp
  have m: "0 < m" unfolding m_def using y1 by (simp add: less_ceiling_iff)
  have e: "exponentOf x = - int (bitLength m)"
    using False by (simp add: exponentOf_def m_def y_def)
  have bp: "0 < bitLength m" using m by (rule bitLength_positive)
  from bitLength_bounds [OF m]
  have lo: "2 ^ (bitLength m - 1) \<le> m" and hi: "m < 2 ^ bitLength m" by simp_all
  have p1: "intPower 2 (- int (bitLength m)) = 1 / 2 ^ bitLength m"
    using bp by (simp add: intPower_def)
  have p2: "intPower 2 (- int (bitLength m) + 1) = 1 / 2 ^ (bitLength m - 1)"
  proof (cases "bitLength m = 1")
    case True
    then show ?thesis by (simp add: intPower_def)
  next
    case False
    with bp have "nat (int (bitLength m) - 1) = bitLength m - 1"
      by simp
    with False bp show ?thesis by (simp add: intPower_def nat_diff_distrib')
  qed
  have "y \<le> of_int \<lceil>y\<rceil>" by (rule le_of_int_ceiling)
  also have "\<lceil>y\<rceil> = m + 1" by (simp add: m_def)
  also have "(of_int (m + 1) :: rat) \<le> of_int (2 ^ bitLength m)"
  proof -
    have "m + 1 \<le> 2 ^ bitLength m" using hi by simp
    then show ?thesis by (simp only: of_int_le_iff)
  qed
  finally have yb: "y \<le> 2 ^ bitLength m" by simp
  have "(of_int (2 ^ (bitLength m - 1)) :: rat) \<le> of_int m"
    using lo by (simp only: of_int_le_iff)
  also have "(of_int m :: rat) < y"
    unfolding m_def using ceiling_correct [of y] by simp
  finally have ya: "2 ^ (bitLength m - 1) < y" by simp
  have a: "1 / 2 ^ bitLength m \<le> \<bar>x\<bar>"
    using yb ax unfolding y_def by (simp add: field_simps)
  have b: "\<bar>x\<bar> < 1 / 2 ^ (bitLength m - 1)"
    using ya ax unfolding y_def by (simp add: field_simps)
  show ?thesis unfolding e p1 p2 using a b by simp
qed

text \<open>\<open>roundHalfEven\<close> yields an integer nearest to its argument.\<close>

lemma roundHalfEven_nearest: "\<bar>of_int (roundHalfEven y) - y\<bar> \<le> 1 / 2"
proof -
  define f where "f = \<lfloor>y\<rfloor>"
  define r where "r = y - of_int f"
  have r: "0 \<le> r" "r < 1"
    using floor_correct [of y] by (simp_all add: r_def f_def)
  have y: "y = of_int f + r" by (simp add: r_def)
  have "roundHalfEven y =
          (if r < 1 / 2 then f else if 1 / 2 < r then f + 1 else if even f then f else f + 1)"
    by (simp add: roundHalfEven_def Let_def f_def r_def)
  then consider "roundHalfEven y = f" "r \<le> 1 / 2" | "roundHalfEven y = f + 1" "1 / 2 \<le> r"
    by (cases "r < 1 / 2"; cases "1 / 2 < r"; cases "even f") auto
  then show ?thesis
  proof cases
    case 1
    then show ?thesis unfolding y using r by simp
  next
    case 2
    then show ?thesis unfolding y using r by simp
  qed
qed

lemma floor_rat_numeral_div:
  "\<lfloor>(numeral a :: rat) / numeral b\<rfloor> = numeral a div numeral b"
  "\<lfloor>- (numeral a :: rat) / numeral b\<rfloor> = - numeral a div numeral b"
  "\<lfloor>- ((numeral a :: rat) / numeral b)\<rfloor> = - numeral a div numeral b"
  "\<lfloor>(1 :: rat) / numeral b\<rfloor> = 1 div numeral b"
  "\<lfloor>- ((1 :: rat) / numeral b)\<rfloor> = - 1 div numeral b"
  using floor_divide_of_int_eq [of "numeral a" "numeral b", where ?'a = rat]
    floor_divide_of_int_eq [of "- numeral a" "numeral b", where ?'a = rat]
    floor_divide_of_int_eq [of 1 "numeral b", where ?'a = rat]
    floor_divide_of_int_eq [of "- 1" "numeral b", where ?'a = rat]
  by simp_all

lemmas roundToDouble_eval =
  roundToDouble_def exponentOf_def roundHalfEven_def intPower_def Let_def
  bitLength.simps floor_rat_numeral_div

text \<open>The rounding at some values: \<open>2 ^ 53 + 1\<close> is a tie and goes to the even neighbour
  \<open>2 ^ 53\<close>, \<open>2 ^ 54 - 1\<close> goes up to \<open>2 ^ 54\<close>, and \<open>1 / 10\<close> is the double
  \<open>3602879701896397 / 2 ^ 55\<close>.\<close>

lemma roundToDouble_examples:
  "roundToDouble 9007199254740993 = Finite 9007199254740992"
  "roundToDouble 9007199254740992 = Finite 9007199254740992"
  "roundToDouble 9007199254740995 = Finite 9007199254740996"
  "roundToDouble 18014398509481983 = Finite 18014398509481984"
  "roundToDouble (1 + 1 / 2 ^ 52) = Finite (1 + 1 / 2 ^ 52)"
  "roundToDouble (1 + 1 / 2 ^ 53) = Finite 1"
  "roundToDouble (6 + 1 / 2 ^ 51) = Finite 6"
  "roundToDouble (1 / 2 ^ 52 - 5) = Finite (- 5)"
  "roundToDouble (1 / 10) = Finite (3602879701896397 / 36028797018963968)"
  "roundToDouble (- (1 / 3)) = Finite (- (6004799503160661 / 18014398509481984))"
  by (simp_all add: roundToDouble_eval)

text \<open>The largest double, the first value that rounds to \<open>Infinity\<close>, and the smallest
  positive double.\<close>

lemma roundToDouble_range:
  "roundToDouble ((2 ^ 53 - 1) * 2 ^ 971) = Finite ((2 ^ 53 - 1) * 2 ^ 971)"
  "roundToDouble ((2 ^ 54 - 1) * 2 ^ 970) = PosInfinity"
  "roundToDouble (1 / 2 ^ 1074) = Finite (1 / 2 ^ 1074)"
  "roundToDouble (1 / 2 ^ 1075) = Finite 0"
  by (simp_all add: roundToDouble_eval)

section \<open>Properties of the resolution matcher\<close>



lemma Math_min_NaN: "NaN \<in> set xs \<Longrightarrow> Math_min xs = NaN"
  by (induction xs) (auto simp: number_min_def)



lemma numericResolution_parsed:
  assumes "parsedSize r = Some (w, h)"
  shows "elementAt (numericResolution r) 0 = roundToDouble (of_int w)"
    and "elementAt (numericResolution r) 1 = roundToDouble (of_int h)"
  using assms
  by (auto simp: parsedSize_def numericResolution_def elementAt_def parseInt_def
           split: list.splits option.splits)

lemma numericResolution_unparsed:
  assumes "parsedSize r = None"
  shows "elementAt (numericResolution r) 0 = NaN \<or> elementAt (numericResolution r) 1 = NaN"
  using assms
  by (auto simp: parsedSize_def numericResolution_def elementAt_def parseInt_def
           split: list.splits option.splits)

lemma number_add_NaN [simp]: "number_add a NaN = NaN"
  by (cases a) simp_all

lemma number_multiply_NaN [simp]: "number_multiply NaN b = NaN"
  by (simp add: number_multiply_def)

lemma indexValue_unparsed:
  assumes "parsedSize r = None"
  shows "indexValue target (numericResolution r) = NaN"
  using numericResolution_unparsed [OF assms]
  by (auto simp: indexValue_def number_subtract_def)

lemma indexValue_exact:
  assumes par: "parsedSize r = Some (w, h)"
    and p: "p \<le> 52"
    and a: "\<bar>a\<bar> \<le> 2 ^ 49" and b: "\<bar>b\<bar> \<le> 2 ^ 49"
    and w: "\<bar>w\<bar> * 2 ^ p \<le> 2 ^ 49" and h: "\<bar>h\<bar> * 2 ^ p \<le> 2 ^ 49"
  shows "indexValue \<lparr>width = Finite (of_int a / 2 ^ p), height = Finite (of_int b / 2 ^ p)\<rparr>
           (numericResolution r)
           = Finite (spec_distance (of_int a / 2 ^ p, of_int b / 2 ^ p) (w, h))"
proof -
  define A where "A = a - w * 2 ^ p"
  define B where "B = b - h * 2 ^ p"
  have one: "(1::int) \<le> 2 ^ p" by simp
  have "\<bar>w\<bar> * 1 \<le> \<bar>w\<bar> * 2 ^ p" by (rule mult_left_mono [OF one]) simp
  with w have w': "\<bar>w\<bar> \<le> 2 ^ 49" by simp
  have "\<bar>h\<bar> * 1 \<le> \<bar>h\<bar> * 2 ^ p" by (rule mult_left_mono [OF one]) simp
  with h have h': "\<bar>h\<bar> \<le> 2 ^ 49" by simp
  have wp: "\<bar>w * 2 ^ p\<bar> \<le> 2 ^ 49" using w by (simp add: abs_mult)
  have hp: "\<bar>h * 2 ^ p\<bar> \<le> 2 ^ 49" using h by (simp add: abs_mult)
  have A: "\<bar>A\<bar> \<le> 2 ^ 50" unfolding A_def using a wp by simp
  have B: "\<bar>B\<bar> \<le> 2 ^ 50" unfolding B_def using b hp by simp
  have xa: "(of_int a :: rat) / 2 ^ p + - of_int w = of_int A / 2 ^ p"
    unfolding A_def by (simp add: field_simps)
  have xb: "(of_int b :: rat) / 2 ^ p + - of_int h = of_int B / 2 ^ p"
    unfolding B_def by (simp add: field_simps)
  have ma: "(of_int A :: rat) / 2 ^ p * 2 = of_int (A * 2) / 2 ^ p" by simp
  have mb: "(of_int B :: rat) / 2 ^ p * 4 = of_int (B * 4) / 2 ^ p" by simp
  have su: "(of_int (A * 2) :: rat) / 2 ^ p + of_int (B * 4) / 2 ^ p
              = of_int (A * 2 + B * 4) / 2 ^ p"
    by (simp add: field_simps)
  have pw: "roundToDouble (of_int w) = Finite (of_int w)"
    using w' by (intro roundToDouble_of_int) simp
  have ph: "roundToDouble (of_int h) = Finite (of_int h)"
    using h' by (intro roundToDouble_of_int) simp
  have dw: "roundToDouble (of_int A / 2 ^ p) = Finite (of_int A / 2 ^ p)"
    using A p by (intro roundToDouble_dyadic) simp_all
  have dh: "roundToDouble (of_int B / 2 ^ p) = Finite (of_int B / 2 ^ p)"
    using B p by (intro roundToDouble_dyadic) simp_all
  have mw: "roundToDouble (of_int (A * 2) / 2 ^ p) = Finite (of_int (A * 2) / 2 ^ p)"
    using A p by (intro roundToDouble_dyadic) simp_all
  have mh: "roundToDouble (of_int (B * 4) / 2 ^ p) = Finite (of_int (B * 4) / 2 ^ p)"
    using B p by (intro roundToDouble_dyadic) simp_all
  have s: "roundToDouble (of_int (A * 2 + B * 4) / 2 ^ p) = Finite (of_int (A * 2 + B * 4) / 2 ^ p)"
    using A B p by (intro roundToDouble_dyadic) simp_all
  have sa: "number_subtract (Finite (of_int a / 2 ^ p)) (roundToDouble (of_int w))
              = Finite (of_int A / 2 ^ p)"
    unfolding pw number_subtract_def negate.simps number_add.simps xa by (rule dw)
  have sb: "number_subtract (Finite (of_int b / 2 ^ p)) (roundToDouble (of_int h))
              = Finite (of_int B / 2 ^ p)"
    unfolding ph number_subtract_def negate.simps number_add.simps xb by (rule dh)
  have c: "number_multiply (Finite (of_int A / 2 ^ p)) (Finite 2) = Finite (of_int (A * 2) / 2 ^ p)"
    unfolding number_multiply_def prod.case number.case ma by (rule mw)
  have d: "number_multiply (Finite (of_int B / 2 ^ p)) (Finite 4) = Finite (of_int (B * 4) / 2 ^ p)"
    unfolding number_multiply_def prod.case number.case mb by (rule mh)
  have e: "number_add (Finite (of_int (A * 2) / 2 ^ p)) (Finite (of_int (B * 4) / 2 ^ p))
             = Finite (of_int (A * 2 + B * 4) / 2 ^ p)"
    unfolding number_add.simps su by (rule s)
  have f: "\<bar>(of_int (A * 2 + B * 4) :: rat) / 2 ^ p\<bar>
             = spec_distance (of_int a / 2 ^ p, of_int b / 2 ^ p) (w, h)"
    unfolding spec_distance_def A_def B_def fst_conv snd_conv
    by (rule arg_cong [where f = abs]) (simp add: field_simps)
  show ?thesis
    unfolding indexValue_def numericResolution_parsed [OF par] Size.simps sa sb c d e Math_abs.simps f
    by (rule refl)
qed

text \<open>A candidate that names no pair of integers makes the whole call return
  \<open>undefined\<close>, wherever it stands in the list and whatever the target.\<close>

lemma getClosestResolution_unparsed:
  assumes "r \<in> set resolutions" and "parsedSize r = None"
  shows "getClosestResolution resolutions target = None"
proof -
  have "NaN \<in> set (map (indexValue target) (map numericResolution resolutions))"
    using assms by (force simp: indexValue_unparsed)
  then have "Math_min (map (indexValue target) (map numericResolution resolutions)) = NaN"
    by (rule Math_min_NaN)
  then show ?thesis
    by (simp add: getClosestResolution_def indexOf_def)
qed


lemmas string_eval =
  parsedSize_def numericResolution_def parseInt_def mathInt_def isWhiteSpace_def isDigit_def
  digitOf_def digitsValue_def elementAt_def

lemma parsedSize_examples:
  "parsedSize ''1280x720'' = Some (1280, 720)"
  "parsedSize ''1920x1080'' = Some (1920, 1080)"
  "parsedSize ''2560x1440'' = Some (2560, 1440)"
  "parsedSize ''1922x1079'' = Some (1922, 1079)"
  "parsedSize ''1x0'' = Some (1, 0)"
  "parsedSize ''2x0'' = Some (2, 0)"
  "parsedSize ''0x0'' = Some (0, 0)"
  "parsedSize ''6x0'' = Some (6, 0)"
  by (simp_all add: string_eval)

lemma indexValue_examples:
  "map (indexValue \<lparr>width = Finite 1920, height = Finite 1080\<rparr>)
     (map numericResolution [''1280x720'', ''1920x1080'', ''2560x1440''])
     = [Finite 2720, Finite 0, Finite 2720]"
  "map (indexValue \<lparr>width = Finite 1921, height = Finite 1079\<rparr>)
     (map numericResolution [''1280x720'', ''1920x1080'', ''2560x1440''])
     = [Finite 2718, Finite 2, Finite 2722]"
  "map (indexValue \<lparr>width = Finite 1920, height = Finite 1080\<rparr>)
     (map numericResolution [''1922x1079'', ''1920x1080''])
     = [Finite 0, Finite 0]"
  using indexValue_exact [OF parsedSize_examples(1), of 0 1920 1080]
    indexValue_exact [OF parsedSize_examples(2), of 0 1920 1080]
    indexValue_exact [OF parsedSize_examples(3), of 0 1920 1080]
    indexValue_exact [OF parsedSize_examples(1), of 0 1921 1079]
    indexValue_exact [OF parsedSize_examples(2), of 0 1921 1079]
    indexValue_exact [OF parsedSize_examples(3), of 0 1921 1079]
    indexValue_exact [OF parsedSize_examples(4), of 0 1920 1080]
  by (simp_all add: spec_distance_def)



lemma getClosestResolution_example_tie:
  "getClosestResolution [''1922x1079'', ''1920x1080'']
     \<lparr>width = Finite 1920, height = Finite 1080\<rparr> = Some ''1922x1079''"
  unfolding getClosestResolution_def Let_def indexValue_examples
  by (simp add: number_min_def indexOf_def)









text \<open>
  Claim C5.  On the empty list of candidates \<open>getClosestResolution\<close> raises nothing: for
  every target it returns \<open>undefined\<close> (\<open>Math.min()\<close> is \<open>Infinity\<close>, which \<open>indexOf\<close> does
  not find, and \<open>resolutions[-1]\<close> is \<open>undefined\<close>).
\<close>

theorem getClosestResolution_empty:
  "getClosestResolution [] target = None"
  by (simp add: getClosestResolution_def indexOf_def)

text \<open>
  Claim C9.  A candidate that is two wider and one lower than the target is at distance 0
  from it, as the target itself is; placed before an exact match it is the one returned:
  for the candidates \<open>1922x1079\<close>, \<open>1920x1080\<close> and the target \<open>(1920, 1080)\<close> the result is
  \<open>1922x1079\<close>, although \<open>1920x1080\<close> names the target exactly.
\<close>

theorem getClosestResolution_exact_match_not_preferred:
  "getClosestResolution [''1922x1079'', ''1920x1080'']
     \<lparr>width = Finite 1920, height = Finite 1080\<rparr> = Some ''1922x1079'' \<and>
   parsedSize ''1920x1080'' = Some (1920, 1080) \<and>
   parsedSize ''1922x1079'' = Some (1922, 1079) \<and>
   (\<forall>w h. spec_distance (of_int w, of_int h) (w + 2, h - 1) = 0 \<and>
          spec_distance (of_int w, of_int h) (w, h) = 0)"
  using getClosestResolution_example_tie
  by (simp add: parsedSize_examples spec_distance_def)

section \<open>Properties of the settings bridge\<close>

lemma forEach_param_absent:
  "parameter \<notin> param_name ` set params \<Longrightarrow>
   forEach_param parameter value params oldValue = (params, oldValue)"
  by (induction params arbitrary: oldValue) auto

lemma forEach_subCategory_absent:
  "\<forall>sub\<in>set tree. parameter \<notin> param_name ` set (parameters sub) \<Longrightarrow>
   forEach_subCategory parameter value tree oldValue = (tree, oldValue)"
  by (induction tree arbitrary: oldValue) (auto simp: forEach_param_absent)

lemma looseEq_JUndefined: "looseEq value JUndefined \<longleftrightarrow> value = JUndefined \<or> value = JNull"
  by (cases "value") (auto simp: looseEq_def unbool_def)

lemma setSetting_parameter_absent:
  assumes "settings s category = Some tree"
    and "\<forall>sub\<in>set tree. parameter \<notin> param_name ` set (parameters sub)"
  shows "setSetting category parameter value s =
          Inr (if value = JUndefined \<or> value = JNull
               then s\<lparr>setSettingLog := setSettingLog s @ [(category, parameter, value)]\<rparr>
               else OBS_settings_saveSettings category tree
                      (s\<lparr>setSettingLog := setSettingLog s @ [(category, parameter, value)]\<rparr>))"
  using assms
  by (simp add: setSetting_def forEach_subCategory_absent looseEq_JUndefined)

text \<open>
  Claim C7.  On the example engine, whose \<open>Output\<close> settings have no parameter named
  \<open>NoSuchParameter\<close>, \<open>setSetting('Output', 'NoSuchParameter', 'x')\<close> raises nothing and
  calls \<open>OBS_settings_saveSettings\<close> once, with the settings it has just read: \<open>oldValue\<close>
  is still \<open>undefined\<close>, and \<open>'x' != undefined\<close> holds.
\<close>

theorem setSetting_absent_parameter_saves:
  "(case setSetting ''Output'' ''NoSuchParameter'' (JStr ''x'') exampleEngine of
      Inl e \<Rightarrow> None
    | Inr s \<Rightarrow> Some (saved s)) = Some [(''Output'', exampleOutput)]"
  by (simp add: setSetting_def exampleEngine_def exampleOutput_def looseEq_def unbool_def
        OBS_settings_saveSettings_def)

lemma getAvailableValues_missing:
  "settings s category = None \<or>
   (\<exists>tree. settings s category = Some tree \<and>
      (find (\<lambda>sub. nameSubCategory sub = subcategory) tree = None \<or>
       (\<exists>sub. find (\<lambda>sub. nameSubCategory sub = subcategory) tree = Some sub \<and>
          find (\<lambda>param. param_name param = parameter) (parameters sub) = None))) \<Longrightarrow>
   getAvailableValues category subcategory parameter s = None"
  by (auto simp: getAvailableValues_def)

lemma getAvailableValues_present:
  "settings s category = Some tree \<Longrightarrow>
   find (\<lambda>sub. nameSubCategory sub = subcategory) tree = Some sub \<Longrightarrow>
   find (\<lambda>param. param_name param = parameter) (parameters sub) = Some param \<Longrightarrow>
   getAvailableValues category subcategory parameter s = Some (map firstValue (param_values param))"
  by (simp add: getAvailableValues_def)

text \<open>
  Claim C8.  On the example engine \<open>getAvailableValues\<close> returns \<open>undefined\<close>, not an empty
  array, when the category (\<open>Stream\<close>), the subcategory (\<open>Advanced\<close>) or the parameter
  (\<open>FPSCommon\<close>) is missing; a parameter that is there gives its values in order, and the
  empty array only when it has no value.
\<close>

theorem getAvailableValues_missing_is_undefined:
  "getAvailableValues ''Stream'' ''Untitled'' ''Base'' exampleEngine = None \<and>
   getAvailableValues ''Video'' ''Advanced'' ''Base'' exampleEngine = None \<and>
   getAvailableValues ''Video'' ''Untitled'' ''FPSCommon'' exampleEngine = None \<and>
   getAvailableValues ''Video'' ''Untitled'' ''Base'' exampleEngine
     = Some [JStr ''1280x720'', JStr ''1920x1080''] \<and>
   getAvailableValues ''Video'' ''Untitled'' ''Output'' exampleEngine = Some []"
  by (simp add: getAvailableValues_def exampleEngine_def exampleVideo_def firstValue_def)

text \<open>What the callers make of it: \<open>setOBSVideoResolution\<close> raises on \<open>undefined\<close>, and on
  an empty array it raises nothing and stores \<open>undefined\<close>.\<close>

lemma setOBSVideoResolution_undefined:
  "getAvailableValues ''Video'' ''Untitled'' paramString s = None \<Longrightarrow>
   setOBSVideoResolution res paramString s = Inl TypeError"
  by (simp add: setOBSVideoResolution_def)

lemma setOBSVideoResolution_empty:
  "getAvailableValues ''Video'' ''Untitled'' paramString s = Some [] \<Longrightarrow>
   setOBSVideoResolution res paramString s = setSetting ''Video'' paramString JUndefined s"
  by (simp add: setOBSVideoResolution_def getClosestResolution_def indexOf_def)

lemma setOBSVideoResolution_empty_example:
  "(case setOBSVideoResolution \<lparr>width = Finite 1920, height = Finite 1080\<rparr> ''Output'' exampleEngine of
      Inl e \<Rightarrow> None
    | Inr s \<Rightarrow> Some (setSettingLog s)) = Some [(''Video'', ''Output'', JUndefined)]"
  by (simp add: setOBSVideoResolution_def getAvailableValues_def exampleEngine_def
        exampleVideo_def getClosestResolution_def indexOf_def setSetting_def looseEq_def
        unbool_def OBS_settings_saveSettings_def)

text \<open>Some comparisons with \<open>==\<close>.\<close>

lemma StringToNumber_examples:
  "StringToNumber ''1.0'' = Finite 1"
  "StringToNumber '' 15 '' = Finite 15"
  "StringToNumber ''-1.5e1'' = Finite (- 15)"
  "StringToNumber ''0x10'' = Finite 16"
  "StringToNumber '''' = Finite 0"
  "StringToNumber ''Infinity'' = PosInfinity"
  "StringToNumber ''15 tracks'' = NaN"
  by (simp_all add: StringToNumber_def trim_def nonDecimalLiteral_def decimalLiteral_def
        exponentPart_def isWhiteSpace_def isDigit_def digitOf_def digitsValue_def intPower_def
        roundToDouble_numeral roundToDouble_neg_numeral)

lemma looseEq_examples:
  "looseEq (JStr ''1.0'') (JNumber (Finite 1))"
  "looseEq (JNumber (Finite 15)) (JStr ''15'')"
  "looseEq (JBool True) (JStr ''1'')"
  "looseEq JNull JUndefined"
  "\<not> looseEq (JNumber (Finite 0)) JNull"
  "\<not> looseEq (JNumber NaN) (JNumber NaN)"
  "\<not> looseEq (JStr ''x'') JUndefined"
  by (simp_all add: looseEq_def unbool_def StringToNumber_def trim_def nonDecimalLiteral_def
        decimalLiteral_def exponentPart_def isWhiteSpace_def isDigit_def digitOf_def
        digitsValue_def intPower_def roundToDouble_numeral roundToDouble_neg_numeral)

section \<open>Properties of the audio track allocator\<close>

lemma setSetting_cases:
  assumes "setSetting category parameter value s = Inr s'"
  shows "outputSource s' = outputSource s \<and> queried s' = queried s \<and>
         released s' = released s \<and> removed s' = removed s \<and>
         setSettingLog s' = setSettingLog s @ [(category, parameter, value)] \<and>
         (\<forall>c. settings s c \<noteq> None \<longrightarrow> settings s' c \<noteq> None)"
  using assms
  by (auto simp: setSetting_def OBS_settings_saveSettings_def Let_def
           split: option.splits prod.splits if_splits)

lemma setSetting_total:
  assumes "settings s category \<noteq> None"
  shows "\<exists>s'. setSetting category parameter value s = Inr s'"
  using assms
  by (auto simp: setSetting_def Let_def split: option.splits prod.splits)

lemma forEach_device_effect:
  assumes "settings s ''Output'' \<noteq> None"
  shows "\<exists>s'. forEach_device kind name selectedId devices currentTrack s
                 = Inr (currentTrack + length devices, s') \<and>
           settings s' ''Output'' \<noteq> None \<and>
           (\<forall>k. outputSource s' k =
              (if currentTrack \<le> k \<and> k < currentTrack + length devices
               then Some (audioSource kind name selectedId (devices ! (k - currentTrack)) k)
               else outputSource s k)) \<and>
           queried s' = queried s \<and>
           released s' = released s @
              map (\<lambda>(k, dev). audioSource kind name selectedId dev k) (enumerate currentTrack devices) \<and>
           removed s' = removed s \<and>
           setSettingLog s' = setSettingLog s @
              map (\<lambda>(k, dev). (''Output'', ''Track'' @ toString k @ ''Name'', JStr (device_name dev)))
                (enumerate currentTrack devices)"
  using assms
proof (induction devices arbitrary: currentTrack s)
  case Nil
  then show ?case by auto
next
  case (Cons dev devices)
  from setSetting_total [OF Cons.prems] obtain s1 where
    s1: "setSetting ''Output'' (''Track'' @ toString currentTrack @ ''Name'') (JStr (device_name dev)) s = Inr s1"
    by blast
  note f1 = setSetting_cases [OF s1]
  let ?src = "audioSource kind name selectedId dev currentTrack"
  let ?s2 = "release ?src (setOutputSource currentTrack (Some ?src) s1)"
  have out2: "settings ?s2 ''Output'' \<noteq> None"
    using f1 Cons.prems by (simp add: release_def setOutputSource_def)
  from Cons.IH [OF out2, of "currentTrack + 1"] obtain s' where
    run: "forEach_device kind name selectedId devices (currentTrack + 1) ?s2
            = Inr (currentTrack + 1 + length devices, s')"
    and keep: "settings s' ''Output'' \<noteq> None"
    and slots: "\<forall>k. outputSource s' k =
              (if currentTrack + 1 \<le> k \<and> k < currentTrack + 1 + length devices
               then Some (audioSource kind name selectedId (devices ! (k - (currentTrack + 1))) k)
               else outputSource ?s2 k)"
    and qu: "queried s' = queried ?s2"
    and rel: "released s' = released ?s2 @
              map (\<lambda>(k, dev). audioSource kind name selectedId dev k) (enumerate (currentTrack + 1) devices)"
    and rem: "removed s' = removed ?s2"
    and log: "setSettingLog s' = setSettingLog ?s2 @
              map (\<lambda>(k, dev). (''Output'', ''Track'' @ toString k @ ''Name'', JStr (device_name dev)))
                (enumerate (currentTrack + 1) devices)"
    by blast
  have a: "forEach_device kind name selectedId (dev # devices) currentTrack s
            = Inr (currentTrack + length (dev # devices), s')"
    using s1 run by simp
  have b: "\<forall>k. outputSource s' k =
              (if currentTrack \<le> k \<and> k < currentTrack + length (dev # devices)
               then Some (audioSource kind name selectedId ((dev # devices) ! (k - currentTrack)) k)
               else outputSource s k)"
  proof
    fix k
    show "outputSource s' k =
              (if currentTrack \<le> k \<and> k < currentTrack + length (dev # devices)
               then Some (audioSource kind name selectedId ((dev # devices) ! (k - currentTrack)) k)
               else outputSource s k)"
      using slots [rule_format, of k] f1
      by (cases "k = currentTrack")
         (auto simp: release_def setOutputSource_def nth_Cons' Suc_diff_le)
  qed
  have q: "queried s' = queried s"
    using qu f1 by (simp add: release_def setOutputSource_def)
  have c: "released s' = released s @
              map (\<lambda>(k, dev). audioSource kind name selectedId dev k) (enumerate currentTrack (dev # devices))"
    using rel f1 by (simp add: release_def setOutputSource_def)
  have d: "removed s' = removed s"
    using rem f1 by (simp add: release_def setOutputSource_def)
  have e: "setSettingLog s' = setSettingLog s @
              map (\<lambda>(k, dev). (''Output'', ''Track'' @ toString k @ ''Name'', JStr (device_name dev)))
                (enumerate currentTrack (dev # devices))"
    using log f1 by (simp add: release_def setOutputSource_def)
  from a keep b q c d e show ?case by blast
qed

text \<open>The value that \<open>parseInt('1'.repeat(n), 2)\<close> reads is \<open>2 ^ n - 1\<close>; up to 53 ones
  that is the number returned, and 54 ones give \<open>2 ^ 54\<close>.\<close>

lemma digitsValue_ones_aux:
  "foldl (\<lambda>acc c. acc * int 2 + int (case digitOf 2 c of None \<Rightarrow> 0 | Some v \<Rightarrow> v)) a
     (replicate n CHR ''1'') = a * 2 ^ n + (2 ^ n - 1)"
proof (induction n arbitrary: a)
  case 0
  show ?case by simp
next
  case (Suc n)
  have "foldl (\<lambda>acc c. acc * int 2 + int (case digitOf 2 c of None \<Rightarrow> 0 | Some v \<Rightarrow> v)) a
          (replicate (Suc n) CHR ''1'')
          = foldl (\<lambda>acc c. acc * int 2 + int (case digitOf 2 c of None \<Rightarrow> 0 | Some v \<Rightarrow> v))
              (a * 2 + 1) (replicate n CHR ''1'')"
    by (simp add: digitOf_def)
  also have "\<dots> = (a * 2 + 1) * 2 ^ n + (2 ^ n - 1)"
    by (rule Suc)
  also have "\<dots> = a * 2 ^ Suc n + (2 ^ Suc n - 1)"
    by (simp add: algebra_simps)
  finally show ?case .
qed

lemma mathInt_ones:
  assumes n: "0 < n"
  shows "mathInt (replicate n CHR ''1'') 2 = Some (2 ^ n - 1)"
proof -
  have ws: "dropWhile isWhiteSpace (replicate n CHR ''1'') = replicate n CHR ''1''"
    by (cases n) (simp_all add: isWhiteSpace_def)
  have hd: "hd (replicate n CHR ''1'') = CHR ''1''" using n by (cases n) simp_all
  have tw: "takeWhile (isDigit 2) (replicate n CHR ''1'') = replicate n CHR ''1''"
    by (simp add: isDigit_def digitOf_def)
  have ne: "replicate n CHR ''1'' \<noteq> []" using n by simp
  show ?thesis
    unfolding mathInt_def Let_def ws hd
    using ne digitsValue_ones_aux [of 0 n] by (simp add: tw digitsValue_def isDigit_def digitOf_def)
qed

lemma parseInt_ones:
  assumes "0 < n" and "n \<le> 53"
  shows "parseInt (replicate n CHR ''1'') 2 = Finite (2 ^ n - 1)"
proof -
  have "(2::int) ^ n \<le> 2 ^ 53" using assms(2) by (intro power_increasing) simp_all
  then have "\<bar>(2::int) ^ n - 1\<bar> < 2 ^ 53" by simp
  from roundToDouble_of_int [OF this] show ?thesis
    by (simp add: parseInt_def mathInt_ones [OF assms(1)])
qed

lemma parseInt_54_ones:
  "parseInt (replicate 54 CHR ''1'') 2 = Finite 18014398509481984"
proof -
  have "mathInt (replicate 54 CHR ''1'') 2 = Some 18014398509481983"
    using mathInt_ones [of 54] by simp
  then show ?thesis
    by (simp add: parseInt_def roundToDouble_eval)
qed

section \<open>The track mask\<close>

lemma trackMask_low_all: "list_all (\<lambda>k. trackMask k = 1 + 2 ^ (k - 1)) [2..<32]"
  by code_simp

lemma trackMask_low:
  assumes "2 \<le> k" "k \<le> 31"
  shows "trackMask k = 1 + 2 ^ (k - 1)"
proof -
  have "\<forall>k\<in>{2..<32}. trackMask k = 1 + 2 ^ (k - 1)"
    using trackMask_low_all unfolding list_all_iff set_upt .
  with assms show ?thesis by auto
qed

lemma trackMask_bits_all:
  "list_all (\<lambda>k. list_all (\<lambda>n. bit (word_of_int (trackMask k) :: 32 word) n = (n = 0 \<or> n = k - 1)) [0..<32]) [1..<33]"
  by code_simp

lemma trackMask_bits:
  assumes "1 \<le> k" "k \<le> 32"
  shows "bit (word_of_int (trackMask k) :: 32 word) n \<longleftrightarrow> n = 0 \<or> n = k - 1"
proof (cases "n < 32")
  case True
  have all: "\<forall>k\<in>{1..<33}. \<forall>n\<in>{0..<32}. bit (word_of_int (trackMask k) :: 32 word) n = (n = 0 \<or> n = k - 1)"
    using trackMask_bits_all unfolding list_all_iff set_upt .
  have k: "k \<in> {1..<33}" using assms by simp
  have n: "n \<in> {0..<32}" using True by simp
  from bspec [OF bspec [OF all k] n] show ?thesis .
next
  case False
  have "\<not> bit (word_of_int (trackMask k) :: 32 word) n"
    using bit_imp_le_length [of "word_of_int (trackMask k) :: 32 word" n] False by auto
  moreover have "n \<noteq> 0" "n \<noteq> k - 1" using False assms by simp_all
  ultimately show ?thesis by simp
qed

lemma mod32: "((x::int) - 32 - 1) mod 32 = (x - 1) mod 32"
proof -
  have eq: "x - 1 = (x - 32 - 1) + 32" by arith
  have "(x - 1) mod 32 = ((x - 32 - 1) + 32) mod 32"
    by (rule arg_cong [where f = "\<lambda>y. y mod 32", OF eq])
  also have "\<dots> = (x - 32 - 1) mod 32" by (rule mod_add_self2)
  finally show ?thesis by (rule sym)
qed

lemma trackMask_wrap:
  assumes k: "33 \<le> k"
  shows "trackMask k = trackMask (k - 32)"
proof -
  have "int (k - 32) = int k - 32" using k by simp
  then have "(int (k - 32) - 1) mod 32 = (int k - 1) mod 32"
    using mod32 [of "int k"] by simp
  then show ?thesis unfolding trackMask_def by (rule arg_cong [where f = "\<lambda>m. sint ((1 :: 32 word) OR push_bit (nat m) (1 :: 32 word))", symmetric])
qed

lemma trackMask_less: "trackMask k < 2 ^ 31"
  unfolding trackMask_def using sint_lt [of "(1 :: 32 word) OR push_bit (nat ((int k - 1) mod 32)) 1"]
  by simp

lemma trackMask_33: "trackMask 33 = 1" by code_simp
lemma trackMask_32: "trackMask 32 = - 2147483647" by code_simp

lemma trackMask_high: 
  assumes k: "33 \<le> k"
  shows "trackMask k \<noteq> 1 + 2 ^ (k - 1)"
proof -
  have "(2::int) ^ 31 \<le> 2 ^ (k - 1)" using k by (intro power_increasing) auto
  with trackMask_less [of k] show ?thesis by linarith
qed

section \<open>Effect of the loops over devices and slots\<close>

declare clearSources_loop.simps [simp del]

lemma clearSources_loop_effect:
  assumes "settings s ''Output'' \<noteq> None"
  shows "\<exists>s'. clearSources_loop index s = Inr s' \<and>
           settings s' ''Output'' \<noteq> None \<and>
           (\<forall>k. outputSource s' k = (if index \<le> k \<and> k < 64 then None else outputSource s k)) \<and>
           queried s' = queried s @ [index..<64] \<and>
           released s' = released s @
              map (\<lambda>k. the (outputSource s k)) (filter (\<lambda>k. outputSource s k \<noteq> None) [index..<64]) \<and>
           removed s' = removed s @
              map (\<lambda>k. the (outputSource s k)) (filter (\<lambda>k. outputSource s k \<noteq> None) [index..<64]) \<and>
           setSettingLog s' = setSettingLog s @
              map (\<lambda>k. (''Output'', ''Track'' @ toString k @ ''Name'', JStr ''''))
                (filter (\<lambda>k. outputSource s k \<noteq> None) [index..<64])"
  using assms
proof (induction "64 - index" arbitrary: index s)
  case 0
  then have "\<not> index < 64" by simp
  then show ?case
    using "0.prems" by (subst clearSources_loop.simps) auto
next
  case (Suc n)
  then have lt: "index < 64" and n: "n = 64 - (index + 1)" by simp_all
  have upt: "[index..<64] = index # [index + 1..<64]"
    using lt by (simp add: upt_conv_Cons)
  let ?s0 = "s\<lparr>queried := queried s @ [index]\<rparr>"
  have get: "getOutputSource index s = (outputSource s index, ?s0)"
    by (simp add: getOutputSource_def)
  have out0: "settings ?s0 ''Output'' \<noteq> None" using Suc.prems by simp
  show ?case
  proof (cases "outputSource s index")
    case None
    from Suc.hyps(1) [OF n out0] obtain s' where
      run: "clearSources_loop (index + 1) ?s0 = Inr s'"
      and keep: "settings s' ''Output'' \<noteq> None"
      and slots: "\<forall>k. outputSource s' k = (if index + 1 \<le> k \<and> k < 64 then None else outputSource ?s0 k)"
      and qu: "queried s' = queried ?s0 @ [index + 1..<64]"
      and rel: "released s' = released ?s0 @
              map (\<lambda>k. the (outputSource ?s0 k)) (filter (\<lambda>k. outputSource ?s0 k \<noteq> None) [index + 1..<64])"
      and rem: "removed s' = removed ?s0 @
              map (\<lambda>k. the (outputSource ?s0 k)) (filter (\<lambda>k. outputSource ?s0 k \<noteq> None) [index + 1..<64])"
      and log: "setSettingLog s' = setSettingLog ?s0 @
              map (\<lambda>k. (''Output'', ''Track'' @ toString k @ ''Name'', JStr ''''))
                (filter (\<lambda>k. outputSource ?s0 k \<noteq> None) [index + 1..<64])"
      by blast
    have a: "clearSources_loop index s = Inr s'"
      using lt None run by (subst clearSources_loop.simps) (simp add: get)
    have b: "\<forall>k. outputSource s' k = (if index \<le> k \<and> k < 64 then None else outputSource s k)"
    proof
      fix k
      show "outputSource s' k = (if index \<le> k \<and> k < 64 then None else outputSource s k)"
        using slots [rule_format, of k] None by (cases "k = index") auto
    qed
    have q: "queried s' = queried s @ [index..<64]"
      using qu unfolding upt by simp
    from a keep b q rel rem log None show ?thesis
      unfolding upt by simp
  next
    case (Some src)
    from setSetting_total [OF out0] obtain s1 where
      s1: "setSetting ''Output'' (''Track'' @ toString index @ ''Name'') (JStr '''') ?s0 = Inr s1"
      by blast
    note f1 = setSetting_cases [OF s1]
    let ?s2 = "remove src (release src (setOutputSource index None s1))"
    have out2: "settings ?s2 ''Output'' \<noteq> None"
      using f1 out0 by (simp add: remove_def release_def setOutputSource_def)
    have same: "\<And>k. k \<in> set [index + 1..<64] \<Longrightarrow> outputSource ?s2 k = outputSource s k"
      using f1 by (simp add: remove_def release_def setOutputSource_def)
    have filt: "filter (\<lambda>k. outputSource ?s2 k \<noteq> None) [index + 1..<64]
                 = filter (\<lambda>k. outputSource s k \<noteq> None) [index + 1..<64]"
      by (rule filter_cong [OF refl]) (simp add: same)
    have mp: "map (\<lambda>k. the (outputSource ?s2 k)) (filter (\<lambda>k. outputSource s k \<noteq> None) [index + 1..<64])
                 = map (\<lambda>k. the (outputSource s k)) (filter (\<lambda>k. outputSource s k \<noteq> None) [index + 1..<64])"
      by (rule map_cong [OF refl]) (simp add: same)
    from Suc.hyps(1) [OF n out2] obtain s' where
      run: "clearSources_loop (index + 1) ?s2 = Inr s'"
      and keep: "settings s' ''Output'' \<noteq> None"
      and slots: "\<forall>k. outputSource s' k = (if index + 1 \<le> k \<and> k < 64 then None else outputSource ?s2 k)"
      and qu: "queried s' = queried ?s2 @ [index + 1..<64]"
      and rel: "released s' = released ?s2 @
              map (\<lambda>k. the (outputSource ?s2 k)) (filter (\<lambda>k. outputSource ?s2 k \<noteq> None) [index + 1..<64])"
      and rem: "removed s' = removed ?s2 @
              map (\<lambda>k. the (outputSource ?s2 k)) (filter (\<lambda>k. outputSource ?s2 k \<noteq> None) [index + 1..<64])"
      and log: "setSettingLog s' = setSettingLog ?s2 @
              map (\<lambda>k. (''Output'', ''Track'' @ toString k @ ''Name'', JStr ''''))
                (filter (\<lambda>k. outputSource ?s2 k \<noteq> None) [index + 1..<64])"
      by blast
    have a: "clearSources_loop index s = Inr s'"
      using lt Some s1 run by (subst clearSources_loop.simps) (simp add: get)
    have b: "\<forall>k. outputSource s' k = (if index \<le> k \<and> k < 64 then None else outputSource s k)"
    proof
      fix k
      show "outputSource s' k = (if index \<le> k \<and> k < 64 then None else outputSource s k)"
        using slots [rule_format, of k] f1 lt
        by (cases "k = index") (auto simp: remove_def release_def setOutputSource_def)
    qed
    have q: "queried s' = queried s @ [index..<64]"
      using qu f1 unfolding upt by (simp add: remove_def release_def setOutputSource_def)
    have c: "released s' = released s @
              map (\<lambda>k. the (outputSource s k)) (filter (\<lambda>k. outputSource s k \<noteq> None) [index..<64])"
      using rel f1 Some unfolding filt mp upt
      by (simp add: remove_def release_def setOutputSource_def)
    have d: "removed s' = removed s @
              map (\<lambda>k. the (outputSource s k)) (filter (\<lambda>k. outputSource s k \<noteq> None) [index..<64])"
      using rem f1 Some unfolding filt mp upt
      by (simp add: remove_def release_def setOutputSource_def)
    have e: "setSettingLog s' = setSettingLog s @
              map (\<lambda>k. (''Output'', ''Track'' @ toString k @ ''Name'', JStr ''''))
                (filter (\<lambda>k. outputSource s k \<noteq> None) [index..<64])"
      using log f1 Some unfolding filt upt
      by (simp add: remove_def release_def setOutputSource_def)
    from a keep b q c d e show ?thesis by blast
  qed
qed

lemma clearSources_effect:
  assumes "settings s ''Output'' \<noteq> None"
  shows "\<exists>s'. clearSources s = Inr s' \<and>
           settings s' ''Output'' \<noteq> None \<and>
           (\<forall>k. outputSource s' k = (if 1 \<le> k \<and> k < 64 then None else outputSource s k)) \<and>
           queried s' = queried s @ [1..<64] \<and>
           released s' = released s @
              map (\<lambda>k. the (outputSource s k)) (filter (\<lambda>k. outputSource s k \<noteq> None) [1..<64]) \<and>
           removed s' = removed s @
              map (\<lambda>k. the (outputSource s k)) (filter (\<lambda>k. outputSource s k \<noteq> None) [1..<64]) \<and>
           setSettingLog s' = setSettingLog s @
              map (\<lambda>k. (''Output'', ''Track'' @ toString k @ ''Name'', JStr ''''))
                (filter (\<lambda>k. outputSource s k \<noteq> None) [1..<64]) @
              [(''Output'', ''RecTracks'', JNumber (Finite 0))]"
proof -
  from clearSources_loop_effect [OF assms, of 1] obtain s1 where
    run: "clearSources_loop 1 s = Inr s1"
    and keep: "settings s1 ''Output'' \<noteq> None"
    and slots: "\<forall>k. outputSource s1 k = (if 1 \<le> k \<and> k < 64 then None else outputSource s k)"
    and qu: "queried s1 = queried s @ [1..<64]"
    and rel: "released s1 = released s @
              map (\<lambda>k. the (outputSource s k)) (filter (\<lambda>k. outputSource s k \<noteq> None) [1..<64])"
    and rem: "removed s1 = removed s @
              map (\<lambda>k. the (outputSource s k)) (filter (\<lambda>k. outputSource s k \<noteq> None) [1..<64])"
    and log: "setSettingLog s1 = setSettingLog s @
              map (\<lambda>k. (''Output'', ''Track'' @ toString k @ ''Name'', JStr ''''))
                (filter (\<lambda>k. outputSource s k \<noteq> None) [1..<64])"
    by blast
  from setSetting_total [OF keep] obtain s' where
    s': "setSetting ''Output'' ''RecTracks'' (JNumber (Finite 0)) s1 = Inr s'"
    by blast
  note f = setSetting_cases [OF s']
  have a: "clearSources s = Inr s'"
    using run s' by (simp add: clearSources_def)
  have b: "settings s' ''Output'' \<noteq> None" using f keep by simp
  from a b slots qu rel rem log f show ?thesis
    by auto
qed

lemma setupSources_obsRecorder_effect:
  assumes "settings s ''Output'' \<noteq> None"
  shows "\<exists>s'. setupSources_obsRecorder scene inId outId ins outs s = Inr s' \<and>
           settings s' ''Output'' \<noteq> None \<and>
           (\<forall>k. outputSource s' k =
              (if 2 \<le> k \<and> k < 2 + length ins
               then Some (audioSource ''wasapi_input_capture'' ''mic-audio'' inId (ins ! (k - 2)) k)
               else if 2 + length ins \<le> k \<and> k < 2 + length ins + length outs
               then Some (audioSource ''wasapi_output_capture'' ''desktop-audio'' outId
                            (outs ! (k - (2 + length ins))) k)
               else if k = 1 then Some scene
               else outputSource s k)) \<and>
           queried s' = queried s \<and>
           released s' = released s @
              map (\<lambda>(k, dev). audioSource ''wasapi_input_capture'' ''mic-audio'' inId dev k)
                (enumerate 2 ins) @
              map (\<lambda>(k, dev). audioSource ''wasapi_output_capture'' ''desktop-audio'' outId dev k)
                (enumerate (2 + length ins) outs) \<and>
           removed s' = removed s \<and>
           setSettingLog s' = setSettingLog s @
              [(''Output'', ''Track1Name'', JStr ''Mixed: all sources'')] @
              map (\<lambda>(k, dev). (''Output'', ''Track'' @ toString k @ ''Name'', JStr (device_name dev)))
                (enumerate 2 (ins @ outs)) @
              [(''Output'', ''RecTracks'',
                JNumber (parseInt (replicate (length ins + length outs + 1) CHR ''1'') 2))]"
proof -
  let ?s0 = "setOutputSource 1 (Some scene) s"
  let ?v = "JNumber (parseInt (replicate (length ins + length outs + 1) CHR ''1'') 2)"
  have out0: "settings ?s0 ''Output'' \<noteq> None"
    using assms by (simp add: setOutputSource_def)
  from setSetting_total [OF out0] obtain s1 where
    s1: "setSetting ''Output'' ''Track1Name'' (JStr ''Mixed: all sources'') ?s0 = Inr s1"
    by blast
  note f1 = setSetting_cases [OF s1]
  have out1: "settings s1 ''Output'' \<noteq> None" using f1 out0 by simp
  from forEach_device_effect [OF out1, of "''wasapi_input_capture''" "''mic-audio''" inId ins 2]
  obtain s2 where
    r2: "forEach_device ''wasapi_input_capture'' ''mic-audio'' inId ins 2 s1 = Inr (2 + length ins, s2)"
    and out2: "settings s2 ''Output'' \<noteq> None"
    and slots2: "\<forall>k. outputSource s2 k =
              (if 2 \<le> k \<and> k < 2 + length ins
               then Some (audioSource ''wasapi_input_capture'' ''mic-audio'' inId (ins ! (k - 2)) k)
               else outputSource s1 k)"
    and qu2: "queried s2 = queried s1"
    and rel2: "released s2 = released s1 @
              map (\<lambda>(k, dev). audioSource ''wasapi_input_capture'' ''mic-audio'' inId dev k) (enumerate 2 ins)"
    and rem2: "removed s2 = removed s1"
    and log2: "setSettingLog s2 = setSettingLog s1 @
              map (\<lambda>(k, dev). (''Output'', ''Track'' @ toString k @ ''Name'', JStr (device_name dev)))
                (enumerate 2 ins)"
    by blast
  from forEach_device_effect [OF out2, of "''wasapi_output_capture''" "''desktop-audio''" outId outs
      "2 + length ins"]
  obtain s3 where
    r3: "forEach_device ''wasapi_output_capture'' ''desktop-audio'' outId outs (2 + length ins) s2
          = Inr (2 + length ins + length outs, s3)"
    and out3: "settings s3 ''Output'' \<noteq> None"
    and slots3: "\<forall>k. outputSource s3 k =
              (if 2 + length ins \<le> k \<and> k < 2 + length ins + length outs
               then Some (audioSource ''wasapi_output_capture'' ''desktop-audio'' outId
                            (outs ! (k - (2 + length ins))) k)
               else outputSource s2 k)"
    and qu3: "queried s3 = queried s2"
    and rel3: "released s3 = released s2 @
              map (\<lambda>(k, dev). audioSource ''wasapi_output_capture'' ''desktop-audio'' outId dev k)
                (enumerate (2 + length ins) outs)"
    and rem3: "removed s3 = removed s2"
    and log3: "setSettingLog s3 = setSettingLog s2 @
              map (\<lambda>(k, dev). (''Output'', ''Track'' @ toString k @ ''Name'', JStr (device_name dev)))
                (enumerate (2 + length ins) outs)"
    by blast
  have ones: "2 + length ins + length outs - 1 = length ins + length outs + 1"
    by simp
  from setSetting_total [OF out3] obtain s' where
    s': "setSetting ''Output'' ''RecTracks'' ?v s3 = Inr s'"
    by blast
  note f4 = setSetting_cases [OF s']
  have a: "setupSources_obsRecorder scene inId outId ins outs s = Inr s'"
    unfolding setupSources_obsRecorder_def s1 sum.case r2 prod.case r3 ones by (rule s')
  have b: "settings s' ''Output'' \<noteq> None" using f4 out3 by simp
  have c: "\<forall>k. outputSource s' k =
              (if 2 \<le> k \<and> k < 2 + length ins
               then Some (audioSource ''wasapi_input_capture'' ''mic-audio'' inId (ins ! (k - 2)) k)
               else if 2 + length ins \<le> k \<and> k < 2 + length ins + length outs
               then Some (audioSource ''wasapi_output_capture'' ''desktop-audio'' outId
                            (outs ! (k - (2 + length ins))) k)
               else if k = 1 then Some scene
               else outputSource s k)"
    using f4 slots3 slots2 f1 by (auto simp: setOutputSource_def)
  have q: "queried s' = queried s"
    using f4 qu3 qu2 f1 by (simp add: setOutputSource_def)
  have d: "released s' = released s @
              map (\<lambda>(k, dev). audioSource ''wasapi_input_capture'' ''mic-audio'' inId dev k)
                (enumerate 2 ins) @
              map (\<lambda>(k, dev). audioSource ''wasapi_output_capture'' ''desktop-audio'' outId dev k)
                (enumerate (2 + length ins) outs)"
    using f4 rel3 rel2 f1 by (simp add: setOutputSource_def)
  have e: "removed s' = removed s"
    using f4 rem3 rem2 f1 by (simp add: setOutputSource_def)
  have g: "setSettingLog s' = setSettingLog s @
              [(''Output'', ''Track1Name'', JStr ''Mixed: all sources'')] @
              map (\<lambda>(k, dev). (''Output'', ''Track'' @ toString k @ ''Name'', JStr (device_name dev)))
                (enumerate 2 (ins @ outs)) @
              [(''Output'', ''RecTracks'', ?v)]"
    using f4 log3 log2 f1 by (simp add: setOutputSource_def enumerate_append_eq)
  from a b c q d e g show ?thesis by blast
qed

lemma setupSources_effect:
  assumes "settings s ''Output'' \<noteq> None"
  shows "\<exists>s'. setupSources scene inId outId ins outs s = Inr s' \<and>
           settings s' ''Output'' \<noteq> None \<and>
           (\<forall>k. outputSource s' k =
              (if 2 \<le> k \<and> k < 2 + length ins
               then Some (audioSource ''wasapi_input_capture'' ''mic-audio'' inId (ins ! (k - 2)) k)
               else if 2 + length ins \<le> k \<and> k < 2 + length ins + length outs
               then Some (audioSource ''wasapi_output_capture'' ''desktop-audio'' outId
                            (outs ! (k - (2 + length ins))) k)
               else if k = 1 then Some scene
               else if 1 \<le> k \<and> k < 64 then None
               else outputSource s k)) \<and>
           queried s' = queried s @ [1..<64] \<and>
           released s' = released s @
              map (\<lambda>k. the (outputSource s k)) (filter (\<lambda>k. outputSource s k \<noteq> None) [1..<64]) @
              map (\<lambda>(k, dev). audioSource ''wasapi_input_capture'' ''mic-audio'' inId dev k)
                (enumerate 2 ins) @
              map (\<lambda>(k, dev). audioSource ''wasapi_output_capture'' ''desktop-audio'' outId dev k)
                (enumerate (2 + length ins) outs) \<and>
           removed s' = removed s @
              map (\<lambda>k. the (outputSource s k)) (filter (\<lambda>k. outputSource s k \<noteq> None) [1..<64]) \<and>
           setSettingLog s' = setSettingLog s @
              map (\<lambda>k. (''Output'', ''Track'' @ toString k @ ''Name'', JStr ''''))
                (filter (\<lambda>k. outputSource s k \<noteq> None) [1..<64]) @
              [(''Output'', ''RecTracks'', JNumber (Finite 0)),
               (''Output'', ''Track1Name'', JStr ''Mixed: all sources'')] @
              map (\<lambda>(k, dev). (''Output'', ''Track'' @ toString k @ ''Name'', JStr (device_name dev)))
                (enumerate 2 (ins @ outs)) @
              [(''Output'', ''RecTracks'',
                JNumber (parseInt (replicate (length ins + length outs + 1) CHR ''1'') 2))]"
proof -
  from clearSources_effect [OF assms] obtain s1 where
    c1: "clearSources s = Inr s1"
    and out1: "settings s1 ''Output'' \<noteq> None"
    and slots1: "\<forall>k. outputSource s1 k = (if 1 \<le> k \<and> k < 64 then None else outputSource s k)"
    and qu1: "queried s1 = queried s @ [1..<64]"
    and rel1: "released s1 = released s @
              map (\<lambda>k. the (outputSource s k)) (filter (\<lambda>k. outputSource s k \<noteq> None) [1..<64])"
    and rem1: "removed s1 = removed s @
              map (\<lambda>k. the (outputSource s k)) (filter (\<lambda>k. outputSource s k \<noteq> None) [1..<64])"
    and log1: "setSettingLog s1 = setSettingLog s @
              map (\<lambda>k. (''Output'', ''Track'' @ toString k @ ''Name'', JStr ''''))
                (filter (\<lambda>k. outputSource s k \<noteq> None) [1..<64]) @
              [(''Output'', ''RecTracks'', JNumber (Finite 0))]"
    by blast
  from setupSources_obsRecorder_effect [OF out1, of scene inId outId ins outs] obtain s' where
    r: "setupSources_obsRecorder scene inId outId ins outs s1 = Inr s'"
    and out: "settings s' ''Output'' \<noteq> None"
    and slots: "\<forall>k. outputSource s' k =
              (if 2 \<le> k \<and> k < 2 + length ins
               then Some (audioSource ''wasapi_input_capture'' ''mic-audio'' inId (ins ! (k - 2)) k)
               else if 2 + length ins \<le> k \<and> k < 2 + length ins + length outs
               then Some (audioSource ''wasapi_output_capture'' ''desktop-audio'' outId
                            (outs ! (k - (2 + length ins))) k)
               else if k = 1 then Some scene
               else outputSource s1 k)"
    and qu: "queried s' = queried s1"
    and rel: "released s' = released s1 @
              map (\<lambda>(k, dev). audioSource ''wasapi_input_capture'' ''mic-audio'' inId dev k)
                (enumerate 2 ins) @
              map (\<lambda>(k, dev). audioSource ''wasapi_output_capture'' ''desktop-audio'' outId dev k)
                (enumerate (2 + length ins) outs)"
    and rem: "removed s' = removed s1"
    and log: "setSettingLog s' = setSettingLog s1 @
              [(''Output'', ''Track1Name'', JStr ''Mixed: all sources'')] @
              map (\<lambda>(k, dev). (''Output'', ''Track'' @ toString k @ ''Name'', JStr (device_name dev)))
                (enumerate 2 (ins @ outs)) @
              [(''Output'', ''RecTracks'',
                JNumber (parseInt (replicate (length ins + length outs + 1) CHR ''1'') 2))]"
    by blast
  have a: "setupSources scene inId outId ins outs s = Inr s'"
    using c1 r by (simp add: setupSources_def)
  have b: "\<forall>k. outputSource s' k =
              (if 2 \<le> k \<and> k < 2 + length ins
               then Some (audioSource ''wasapi_input_capture'' ''mic-audio'' inId (ins ! (k - 2)) k)
               else if 2 + length ins \<le> k \<and> k < 2 + length ins + length outs
               then Some (audioSource ''wasapi_output_capture'' ''desktop-audio'' outId
                            (outs ! (k - (2 + length ins))) k)
               else if k = 1 then Some scene
               else if 1 \<le> k \<and> k < 64 then None
               else outputSource s k)"
    using slots slots1 by simp
  from a out b qu qu1 rel rel1 rem rem1 log log1 show ?thesis
    by simp
qed

lemma audio_slot:
  assumes slots: "\<forall>k. outputSource s' k =
              (if 2 \<le> k \<and> k < 2 + length ins
               then Some (audioSource ''wasapi_input_capture'' ''mic-audio'' inId (ins ! (k - 2)) k)
               else if 2 + length ins \<le> k \<and> k < 2 + length ins + length outs
               then Some (audioSource ''wasapi_output_capture'' ''desktop-audio'' outId
                            (outs ! (k - (2 + length ins))) k)
               else rest k)"
    and k: "2 \<le> k" "k \<le> length ins + length outs + 1"
  shows "\<exists>src. outputSource s' k = Some (Input src) \<and>
           settings_device_id src = device_id ((ins @ outs) ! (k - 2)) \<and>
           audioMixers src = trackMask k"
proof (cases "k < 2 + length ins")
  case True
  with k slots have "outputSource s' k =
      Some (audioSource ''wasapi_input_capture'' ''mic-audio'' inId (ins ! (k - 2)) k)"
    by simp
  moreover have "(ins @ outs) ! (k - 2) = ins ! (k - 2)"
    using True k by (simp add: nth_append)
  ultimately show ?thesis by (simp add: audioSource_def)
next
  case False
  with k slots have "outputSource s' k =
      Some (audioSource ''wasapi_output_capture'' ''desktop-audio'' outId
                            (outs ! (k - (2 + length ins))) k)"
    by simp
  moreover have "(ins @ outs) ! (k - 2) = outs ! (k - (2 + length ins))"
    using False k by (simp add: nth_append)
  ultimately show ?thesis by (simp add: audioSource_def)
qed

section \<open>Claims about the audio track allocator\<close>

lemma exampleEngine_Output: "settings exampleEngine ''Output'' \<noteq> None"
  by (simp add: exampleEngine_def)

text \<open>What a run of \<open>setupSources\<close> over \<open>N\<close> devices does on an engine that has \<open>Output\<close>
  settings, in both revisions: the slot \<open>k\<close>, for \<open>k\<close> from 2 to \<open>N + 1\<close>, holds the source of
  the device number \<open>k - 2\<close> of the enumeration, with the track mask \<open>1 | (1 << k-1)\<close> as the
  engine computes it, and the last call of \<open>setSetting\<close> sets \<open>RecTracks\<close> to what \<open>parseInt\<close>
  makes of \<open>N + 1\<close> ones.\<close>

lemma setupSources_tracks:
  assumes out: "settings s ''Output'' \<noteq> None"
  shows "\<exists>s'. setupSources scene inId outId ins outs s = Inr s' \<and>
         (\<forall>k. 2 \<le> k \<and> k \<le> length ins + length outs + 1 \<longrightarrow>
            (\<exists>src. outputSource s' k = Some (Input src) \<and>
               settings_device_id src = device_id ((ins @ outs) ! (k - 2)) \<and>
               audioMixers src = trackMask k)) \<and>
         last (setSettingLog s')
           = (''Output'', ''RecTracks'',
              JNumber (parseInt (replicate (length ins + length outs + 1) CHR ''1'') 2))"
proof -
  from setupSources_effect [OF out, of scene inId outId ins outs] obtain s' where
    run: "setupSources scene inId outId ins outs s = Inr s'"
    and slots: "\<forall>k. outputSource s' k =
              (if 2 \<le> k \<and> k < 2 + length ins
               then Some (audioSource ''wasapi_input_capture'' ''mic-audio'' inId (ins ! (k - 2)) k)
               else if 2 + length ins \<le> k \<and> k < 2 + length ins + length outs
               then Some (audioSource ''wasapi_output_capture'' ''desktop-audio'' outId
                            (outs ! (k - (2 + length ins))) k)
               else if k = 1 then Some scene
               else if 1 \<le> k \<and> k < 64 then None
               else outputSource s k)"
    and log: "setSettingLog s' = setSettingLog s @
              map (\<lambda>k. (''Output'', ''Track'' @ toString k @ ''Name'', JStr ''''))
                (filter (\<lambda>k. outputSource s k \<noteq> None) [1..<64]) @
              [(''Output'', ''RecTracks'', JNumber (Finite 0)),
               (''Output'', ''Track1Name'', JStr ''Mixed: all sources'')] @
              map (\<lambda>(k, dev). (''Output'', ''Track'' @ toString k @ ''Name'', JStr (device_name dev)))
                (enumerate 2 (ins @ outs)) @
              [(''Output'', ''RecTracks'',
                JNumber (parseInt (replicate (length ins + length outs + 1) CHR ''1'') 2))]"
    by blast
  have each: "\<forall>k. 2 \<le> k \<and> k \<le> length ins + length outs + 1 \<longrightarrow>
            (\<exists>src. outputSource s' k = Some (Input src) \<and>
               settings_device_id src = device_id ((ins @ outs) ! (k - 2)) \<and>
               audioMixers src = trackMask k)"
    using audio_slot [OF slots] by blast
  have lst: "last (setSettingLog s')
           = (''Output'', ''RecTracks'',
              JNumber (parseInt (replicate (length ins + length outs + 1) CHR ''1'') 2))"
    unfolding log by simp
  from run each lst
  show ?thesis
    by blast
qed

lemma setupSources_obsRecorder_tracks:
  assumes out: "settings s ''Output'' \<noteq> None"
  shows "\<exists>s'. setupSources_obsRecorder scene inId outId ins outs s = Inr s' \<and>
         (\<forall>k. 2 \<le> k \<and> k \<le> length ins + length outs + 1 \<longrightarrow>
            (\<exists>src. outputSource s' k = Some (Input src) \<and>
               settings_device_id src = device_id ((ins @ outs) ! (k - 2)) \<and>
               audioMixers src = trackMask k)) \<and>
         last (setSettingLog s')
           = (''Output'', ''RecTracks'',
              JNumber (parseInt (replicate (length ins + length outs + 1) CHR ''1'') 2))"
proof -
  from setupSources_obsRecorder_effect [OF out, of scene inId outId ins outs] obtain s' where
    run: "setupSources_obsRecorder scene inId outId ins outs s = Inr s'"
    and slots: "\<forall>k. outputSource s' k =
              (if 2 \<le> k \<and> k < 2 + length ins
               then Some (audioSource ''wasapi_input_capture'' ''mic-audio'' inId (ins ! (k - 2)) k)
               else if 2 + length ins \<le> k \<and> k < 2 + length ins + length outs
               then Some (audioSource ''wasapi_output_capture'' ''desktop-audio'' outId
                            (outs ! (k - (2 + length ins))) k)
               else if k = 1 then Some scene
               else outputSource s k)"
    and log: "setSettingLog s' = setSettingLog s @
              [(''Output'', ''Track1Name'', JStr ''Mixed: all sources'')] @
              map (\<lambda>(k, dev). (''Output'', ''Track'' @ toString k @ ''Name'', JStr (device_name dev)))
                (enumerate 2 (ins @ outs)) @
              [(''Output'', ''RecTracks'',
                JNumber (parseInt (replicate (length ins + length outs + 1) CHR ''1'') 2))]"
    by blast
  have each: "\<forall>k. 2 \<le> k \<and> k \<le> length ins + length outs + 1 \<longrightarrow>
            (\<exists>src. outputSource s' k = Some (Input src) \<and>
               settings_device_id src = device_id ((ins @ outs) ! (k - 2)) \<and>
               audioMixers src = trackMask k)"
    using audio_slot [OF slots] by blast
  have lst: "last (setSettingLog s')
           = (''Output'', ''RecTracks'',
              JNumber (parseInt (replicate (length ins + length outs + 1) CHR ''1'') 2))"
    unfolding log by simp
  from run each lst
  show ?thesis
    by blast
qed

text \<open>Two input devices and one output device take the slots 2, 3 and 4 with the masks
  3, 5 and 9, and the recorded tracks are set to 15.\<close>

lemma setupSources_three_devices:
  "\<exists>s'. setupSources (Scene ''main'') ''all'' ''none'' [mic, headset] [speakers] exampleEngine = Inr s' \<and>
     (\<exists>src. outputSource s' 2 = Some (Input src) \<and> settings_device_id src = ''mic-1'' \<and>
        audioMixers src = 3) \<and>
     (\<exists>src. outputSource s' 3 = Some (Input src) \<and> settings_device_id src = ''mic-2'' \<and>
        audioMixers src = 5) \<and>
     (\<exists>src. outputSource s' 4 = Some (Input src) \<and> settings_device_id src = ''out-1'' \<and>
        audioMixers src = 9) \<and>
     last (setSettingLog s') = (''Output'', ''RecTracks'', JNumber (Finite 15))"
proof -
  from setupSources_tracks [OF exampleEngine_Output, of "Scene ''main''" "''all''" "''none''"
      "[mic, headset]" "[speakers]"]
  obtain s' where
    run: "setupSources (Scene ''main'') ''all'' ''none'' [mic, headset] [speakers] exampleEngine = Inr s'"
    and each: "\<forall>k. 2 \<le> k \<and> k \<le> length [mic, headset] + length [speakers] + 1 \<longrightarrow>
            (\<exists>src. outputSource s' k = Some (Input src) \<and>
               settings_device_id src = device_id (([mic, headset] @ [speakers]) ! (k - 2)) \<and>
               audioMixers src = trackMask k)"
    and lst: "last (setSettingLog s')
           = (''Output'', ''RecTracks'',
              JNumber (parseInt (replicate (length [mic, headset] + length [speakers] + 1) CHR ''1'') 2))"
    by blast
  have m: "trackMask 2 = 3" "trackMask 3 = 5" "trackMask 4 = 9" by code_simp+
  have s2: "\<exists>src. outputSource s' 2 = Some (Input src) \<and> settings_device_id src = ''mic-1'' \<and>
        audioMixers src = 3"
    using each [rule_format, of 2] m by (simp add: mic_def)
  have s3: "\<exists>src. outputSource s' 3 = Some (Input src) \<and> settings_device_id src = ''mic-2'' \<and>
        audioMixers src = 5"
    using each [rule_format, of 3] m by (simp add: headset_def)
  have s4: "\<exists>src. outputSource s' 4 = Some (Input src) \<and> settings_device_id src = ''out-1'' \<and>
        audioMixers src = 9"
    using each [rule_format, of 4] m by (simp add: speakers_def)
  have p: "parseInt (replicate (length [mic, headset] + length [speakers] + 1) CHR ''1'') 2
             = Finite 15"
    using parseInt_ones [of "length [mic, headset] + length [speakers] + 1"] by simp
  have l: "last (setSettingLog s') = (''Output'', ''RecTracks'', JNumber (Finite 15))"
    using lst unfolding p .
  from run s2 s3 s4 l show ?thesis by blast
qed

text \<open>
  Claim C2.  With 32 devices, on the example engine, the source in slot 33 gets the mask 1:
  the bit of the mix track alone, without the bit 32 of its own, and not the number
  \<open>1 + 2 ^ 32\<close>.  With 53 devices the recorded tracks are set to \<open>2 ^ 54\<close>, which is what
  \<open>parseInt\<close> returns for 54 ones, and not to \<open>2 ^ 54 - 1\<close>.
\<close>

theorem setupSources_slot_33_mask_is_mix_only:
  "(case setupSources (Scene ''main'') ''all'' ''all'' (replicate 32 mic) [] exampleEngine of
      Inl e \<Rightarrow> False
    | Inr s' \<Rightarrow>
        (case outputSource s' 33 of
           None \<Rightarrow> False
         | Some (Scene n) \<Rightarrow> False
         | Some (Input src) \<Rightarrow>
             audioMixers src = 1 \<and> \<not> bit (audioMixers src) (33 - 1 :: nat) \<and>
             audioMixers src \<noteq> 1 + 2 ^ (33 - 1))) \<and>
   (case setupSources (Scene ''main'') ''all'' ''all'' (replicate 53 mic) [] exampleEngine of
      Inl e \<Rightarrow> False
    | Inr s' \<Rightarrow>
        last (setSettingLog s') = (''Output'', ''RecTracks'', JNumber (Finite 18014398509481984)) \<and>
        (18014398509481984 :: rat) = 2 ^ (53 + 1) \<and>
        JNumber (Finite 18014398509481984) \<noteq> JNumber (Finite (2 ^ (53 + 1) - 1)))"
proof (rule conjI)
  from setupSources_effect [OF exampleEngine_Output, of "Scene ''main''" "''all''" "''all''"
      "replicate 32 mic" "[]"]
  obtain s' where
    run: "setupSources (Scene ''main'') ''all'' ''all'' (replicate 32 mic) [] exampleEngine = Inr s'"
    and slots: "\<forall>k. outputSource s' k =
              (if 2 \<le> k \<and> k < 2 + length (replicate 32 mic)
               then Some (audioSource ''wasapi_input_capture'' ''mic-audio'' ''all''
                            (replicate 32 mic ! (k - 2)) k)
               else if 2 + length (replicate 32 mic) \<le> k \<and>
                       k < 2 + length (replicate 32 mic) + length ([] :: device list)
               then Some (audioSource ''wasapi_output_capture'' ''desktop-audio'' ''all''
                            (([] :: device list) ! (k - (2 + length (replicate 32 mic)))) k)
               else if k = 1 then Some (Scene ''main'')
               else if 1 \<le> k \<and> k < 64 then None
               else outputSource exampleEngine k)"
    by blast
  have "outputSource s' 33 = Some (audioSource ''wasapi_input_capture'' ''mic-audio'' ''all'' mic 33)"
    using slots [rule_format, of 33] by simp
  then show "case setupSources (Scene ''main'') ''all'' ''all'' (replicate 32 mic) [] exampleEngine of
      Inl e \<Rightarrow> False
    | Inr s' \<Rightarrow>
        (case outputSource s' 33 of
           None \<Rightarrow> False
         | Some (Scene n) \<Rightarrow> False
         | Some (Input src) \<Rightarrow>
             audioMixers src = 1 \<and> \<not> bit (audioMixers src) (33 - 1 :: nat) \<and>
             audioMixers src \<noteq> 1 + 2 ^ (33 - 1))"
    using run by (simp add: audioSource_def trackMask_33)
next
  from setupSources_tracks [OF exampleEngine_Output, of "Scene ''main''" "''all''" "''all''"
      "replicate 53 mic" "[]"]
  obtain s' where
    run: "setupSources (Scene ''main'') ''all'' ''all'' (replicate 53 mic) [] exampleEngine = Inr s'"
    and lst: "last (setSettingLog s')
           = (''Output'', ''RecTracks'',
              JNumber (parseInt (replicate (length (replicate 53 mic) + length ([] :: device list) + 1)
                         CHR ''1'') 2))"
    by blast
  have p: "parseInt (replicate (length (replicate 53 mic) + length ([] :: device list) + 1)
             CHR ''1'') 2 = Finite 18014398509481984"
    using parseInt_54_ones by simp
  have "last (setSettingLog s') = (''Output'', ''RecTracks'', JNumber (Finite 18014398509481984))"
    using lst unfolding p .
  then show "case setupSources (Scene ''main'') ''all'' ''all'' (replicate 53 mic) [] exampleEngine of
      Inl e \<Rightarrow> False
    | Inr s' \<Rightarrow>
        last (setSettingLog s') = (''Output'', ''RecTracks'', JNumber (Finite 18014398509481984)) \<and>
        (18014398509481984 :: rat) = 2 ^ (53 + 1) \<and>
        JNumber (Finite 18014398509481984) \<noteq> JNumber (Finite (2 ^ (53 + 1) - 1))"
    using run by simp
qed

lemma trackMask_pattern:
  assumes "1 \<le> k"
  shows "(word_of_int (trackMask k) :: 32 word) = 1 OR push_bit ((k - 1) mod 32) 1"
proof -
  have "int k - 1 = int (k - 1)" using assms by (simp only: of_nat_diff of_nat_1)
  then have "(int k - 1) mod 32 = int ((k - 1) mod 32)"
    by (simp only: of_nat_mod of_nat_numeral)
  then have "nat ((int k - 1) mod 32) = (k - 1) mod 32"
    by (simp only: nat_int)
  then have "trackMask k = sint ((1 :: 32 word) OR push_bit ((k - 1) mod 32) 1)"
    unfolding trackMask_def by (rule arg_cong [where f = "\<lambda>m. sint ((1 :: 32 word) OR push_bit m 1)"])
  then show ?thesis by simp
qed

text \<open>
  Claim C10.  From slot 33 on the shift count of \<open>1 << k-1\<close> is taken modulo 32: the mask
  of slot \<open>k\<close> is the mask of slot \<open>k - 32\<close> and differs from \<open>1 + 2 ^ (k - 1)\<close>; its
  32-bit pattern is \<open>1 | 1 << ((k - 1) mod 32)\<close>.  Slot 33 gets the mask 1.  In a run of
  \<open>setupSources\<close> that reaches a slot \<open>k \<ge> 33\<close>, the source in that slot carries the mask of
  slot \<open>k - 32\<close>, and from slot 34 on that is the mask of the source registered in slot
  \<open>k - 32\<close> by the same run.
\<close>

theorem trackMask_wraps_from_slot_33:
  "(33 \<le> k \<longrightarrow> trackMask k = trackMask (k - 32) \<and> trackMask k \<noteq> 1 + 2 ^ (k - 1)) \<and>
   (1 \<le> k \<longrightarrow> (word_of_int (trackMask k) :: 32 word) = 1 OR push_bit ((k - 1) mod 32) 1) \<and>
   trackMask 33 = 1 \<and>
   (settings s ''Output'' \<noteq> None \<and> 33 \<le> k \<and> k \<le> length ins + length outs + 1 \<longrightarrow>
      (\<exists>s' src. setupSources scene inId outId ins outs s = Inr s' \<and>
         outputSource s' k = Some (Input src) \<and> audioMixers src = trackMask (k - 32)) \<and>
      (\<exists>s' src. setupSources_obsRecorder scene inId outId ins outs s = Inr s' \<and>
         outputSource s' k = Some (Input src) \<and> audioMixers src = trackMask (k - 32))) \<and>
   (settings s ''Output'' \<noteq> None \<and> 34 \<le> k \<and> k \<le> length ins + length outs + 1 \<longrightarrow>
      (\<exists>s' src low. setupSources scene inId outId ins outs s = Inr s' \<and>
         outputSource s' k = Some (Input src) \<and> outputSource s' (k - 32) = Some (Input low) \<and>
         audioMixers src = audioMixers low))"
proof (intro conjI impI)
  assume "33 \<le> k"
  then show "trackMask k = trackMask (k - 32)" by (rule trackMask_wrap)
next
  assume "33 \<le> k"
  then show "trackMask k \<noteq> 1 + 2 ^ (k - 1)" by (rule trackMask_high)
next
  assume "1 \<le> k"
  then show "(word_of_int (trackMask k) :: 32 word) = 1 OR push_bit ((k - 1) mod 32) 1"
    by (rule trackMask_pattern)
next
  show "trackMask 33 = 1" by (rule trackMask_33)
next
  assume h: "settings s ''Output'' \<noteq> None \<and> 33 \<le> k \<and> k \<le> length ins + length outs + 1"
  from setupSources_tracks [of s scene inId outId ins outs] h obtain s' where
    run: "setupSources scene inId outId ins outs s = Inr s'"
    and each: "\<forall>k. 2 \<le> k \<and> k \<le> length ins + length outs + 1 \<longrightarrow>
            (\<exists>src. outputSource s' k = Some (Input src) \<and>
               settings_device_id src = device_id ((ins @ outs) ! (k - 2)) \<and>
               audioMixers src = trackMask k)"
    by blast
  from each [rule_format, of k] h obtain src where
    "outputSource s' k = Some (Input src)" "audioMixers src = trackMask k"
    by auto
  with run trackMask_wrap [of k] h
  show "\<exists>s' src. setupSources scene inId outId ins outs s = Inr s' \<and>
         outputSource s' k = Some (Input src) \<and> audioMixers src = trackMask (k - 32)"
    by auto
next
  assume h: "settings s ''Output'' \<noteq> None \<and> 33 \<le> k \<and> k \<le> length ins + length outs + 1"
  from setupSources_obsRecorder_tracks [of s scene inId outId ins outs] h obtain s' where
    run: "setupSources_obsRecorder scene inId outId ins outs s = Inr s'"
    and each: "\<forall>k. 2 \<le> k \<and> k \<le> length ins + length outs + 1 \<longrightarrow>
            (\<exists>src. outputSource s' k = Some (Input src) \<and>
               settings_device_id src = device_id ((ins @ outs) ! (k - 2)) \<and>
               audioMixers src = trackMask k)"
    by blast
  from each [rule_format, of k] h obtain src where
    "outputSource s' k = Some (Input src)" "audioMixers src = trackMask k"
    by auto
  with run trackMask_wrap [of k] h
  show "\<exists>s' src. setupSources_obsRecorder scene inId outId ins outs s = Inr s' \<and>
         outputSource s' k = Some (Input src) \<and> audioMixers src = trackMask (k - 32)"
    by auto
next
  assume h: "settings s ''Output'' \<noteq> None \<and> 34 \<le> k \<and> k \<le> length ins + length outs + 1"
  from setupSources_tracks [of s scene inId outId ins outs] h obtain s' where
    run: "setupSources scene inId outId ins outs s = Inr s'"
    and each: "\<forall>k. 2 \<le> k \<and> k \<le> length ins + length outs + 1 \<longrightarrow>
            (\<exists>src. outputSource s' k = Some (Input src) \<and>
               settings_device_id src = device_id ((ins @ outs) ! (k - 2)) \<and>
               audioMixers src = trackMask k)"
    by blast
  from each [rule_format, of k] h obtain src where
    src: "outputSource s' k = Some (Input src)" "audioMixers src = trackMask k"
    by auto
  have r: "2 \<le> k - 32 \<and> k - 32 \<le> length ins + length outs + 1" using h by arith
  from each [rule_format, OF r] obtain low where
    low: "outputSource s' (k - 32) = Some (Input low)" "audioMixers low = trackMask (k - 32)"
    by blast
  have "trackMask k = trackMask (k - 32)" using h by (intro trackMask_wrap) simp
  with run src low
  show "\<exists>s' src low. setupSources scene inId outId ins outs s = Inr s' \<and>
         outputSource s' k = Some (Input src) \<and> outputSource s' (k - 32) = Some (Input low) \<and>
         audioMixers src = audioMixers low"
    by auto
qed

theorem trackMask_wraps_from_slot_33_witness:
  "(trackMask 34 = trackMask (34 - 32) \<and> trackMask 34 \<noteq> 1 + 2 ^ (34 - 1)) \<and>
   (word_of_int (trackMask 34) :: 32 word) = 1 OR push_bit ((34 - 1) mod 32) 1 \<and>
   ((\<exists>s' src.
      setupSources (Scene ''main'') ''all'' ''all'' (replicate 33 mic) [] exampleEngine = Inr s' \<and>
      outputSource s' 34 = Some (Input src) \<and> audioMixers src = trackMask (34 - 32)) \<and>
    (\<exists>s' src.
      setupSources_obsRecorder (Scene ''main'') ''all'' ''all'' (replicate 33 mic) [] exampleEngine
        = Inr s' \<and>
      outputSource s' 34 = Some (Input src) \<and> audioMixers src = trackMask (34 - 32))) \<and>
   (\<exists>s' src low.
      setupSources (Scene ''main'') ''all'' ''all'' (replicate 33 mic) [] exampleEngine = Inr s' \<and>
      outputSource s' 34 = Some (Input src) \<and> outputSource s' (34 - 32) = Some (Input low) \<and>
      audioMixers src = audioMixers low)"
proof -
  note t = trackMask_wraps_from_slot_33
    [of 34 exampleEngine "replicate 33 mic" "[]" "Scene ''main''" "''all''" "''all''"]
  have h: "settings exampleEngine ''Output'' \<noteq> None \<and> (34::nat) \<le> 34 \<and>
           34 \<le> length (replicate 33 mic) + length ([] :: device list) + 1"
    by (simp add: exampleEngine_Output)
  have h': "settings exampleEngine ''Output'' \<noteq> None \<and> (33::nat) \<le> 34 \<and>
           34 \<le> length (replicate 33 mic) + length ([] :: device list) + 1"
    by (simp add: exampleEngine_Output)
  have k: "(33::nat) \<le> 34" and k1: "(1::nat) \<le> 34" by simp_all
  have a: "trackMask 34 = trackMask (34 - 32) \<and> trackMask 34 \<noteq> 1 + 2 ^ (34 - 1)"
    by (rule mp [OF conjunct1 [OF t] k])
  have p: "(word_of_int (trackMask 34) :: 32 word) = 1 OR push_bit ((34 - 1) mod 32) 1"
    by (rule mp [OF conjunct1 [OF conjunct2 [OF t]] k1])
  have r: "(\<exists>s' src.
      setupSources (Scene ''main'') ''all'' ''all'' (replicate 33 mic) [] exampleEngine = Inr s' \<and>
      outputSource s' 34 = Some (Input src) \<and> audioMixers src = trackMask (34 - 32)) \<and>
    (\<exists>s' src.
      setupSources_obsRecorder (Scene ''main'') ''all'' ''all'' (replicate 33 mic) [] exampleEngine
        = Inr s' \<and>
      outputSource s' 34 = Some (Input src) \<and> audioMixers src = trackMask (34 - 32))"
    by (rule mp [OF conjunct1 [OF conjunct2 [OF conjunct2 [OF conjunct2 [OF t]]]] h'])
  have b: "\<exists>s' src low.
      setupSources (Scene ''main'') ''all'' ''all'' (replicate 33 mic) [] exampleEngine = Inr s' \<and>
      outputSource s' 34 = Some (Input src) \<and> outputSource s' (34 - 32) = Some (Input low) \<and>
      audioMixers src = audioMixers low"
    by (rule mp [OF conjunct2 [OF conjunct2 [OF conjunct2 [OF conjunct2 [OF t]]]] h])
  show ?thesis by (rule conjI [OF a conjI [OF p conjI [OF r b]]])
qed

section \<open>Claims about clearing the output slots\<close>









text \<open>On any engine that has \<open>Output\<close> settings, \<open>clearSources\<close> raises nothing, queries the
  indexes 1 to 63 and leaves them empty.\<close>

lemma clearSources_clears_indexes_1_to_63:
  assumes "settings s ''Output'' \<noteq> None"
  shows "\<exists>s'. clearSources s = Inr s' \<and>
         queried s' = queried s @ [1..<64] \<and>
         (\<forall>k. 1 \<le> k \<and> k < 64 \<longrightarrow> outputSource s' k = None) \<and>
         (\<forall>k. k = 0 \<or> 64 \<le> k \<longrightarrow> outputSource s' k = outputSource s k)"
proof -
  from clearSources_effect [OF assms] obtain s' where
    "clearSources s = Inr s'"
    "\<forall>k. outputSource s' k = (if 1 \<le> k \<and> k < 64 then None else outputSource s k)"
    "queried s' = queried s @ [1..<64]"
    by blast
  then show ?thesis by auto
qed

text \<open>A rebuild of the sources over at most 62 devices uses the indexes up to 63, all of
  which the next \<open>clearSources\<close> goes through: started with nothing registered at index 64, it
  leaves as many audio sources registered as it was given devices, and so does any number of
  rebuilds in a row.\<close>

lemma count_in_range:
  assumes "n \<le> 63"
  shows "length (filter (\<lambda>k. 2 \<le> k \<and> k < 2 + n) [1..<65]) = n"
proof -
  have "length (filter (\<lambda>k. 2 \<le> k \<and> k < 2 + n) [1..<65])
          = card ({k. 2 \<le> k \<and> k < 2 + n} \<inter> set [1..<65])"
    by (rule distinct_length_filter) simp
  also have "{k. 2 \<le> k \<and> k < 2 + n} \<inter> set [1..<65] = {2..<2 + n}"
    using assms by auto
  finally show ?thesis by simp
qed

lemma registeredAudioSources_after:
  assumes slots: "\<forall>k. outputSource s' k =
              (if 2 \<le> k \<and> k < 2 + length ins
               then Some (audioSource ''wasapi_input_capture'' ''mic-audio'' inId (ins ! (k - 2)) k)
               else if 2 + length ins \<le> k \<and> k < 2 + length ins + length outs
               then Some (audioSource ''wasapi_output_capture'' ''desktop-audio'' outId
                            (outs ! (k - (2 + length ins))) k)
               else if k = 1 then Some (Scene sceneName)
               else if 1 \<le> k \<and> k < 64 then None
               else outputSource s k)"
    and n: "length ins + length outs \<le> 62"
    and free: "outputSource s 64 = None"
  shows "registeredAudioSources s' = length ins + length outs \<and> outputSource s' 64 = None"
proof -
  have each: "isAudioSource (outputSource s' k) = (2 \<le> k \<and> k < 2 + (length ins + length outs))"
    if "k \<in> set [1..<65]" for k
  proof -
    from that have "k < 64 \<or> k = 64" by auto
    then show ?thesis
      using slots [rule_format, of k] n free that
      by (auto simp: isAudioSource_def audioSource_def)
  qed
  have "filter (\<lambda>k. isAudioSource (outputSource s' k)) [1..<65]
          = filter (\<lambda>k. 2 \<le> k \<and> k < 2 + (length ins + length outs)) [1..<65]"
    by (rule filter_cong [OF refl]) (rule each)
  then have "registeredAudioSources s' = length ins + length outs"
    unfolding registeredAudioSources_def using count_in_range [of "length ins + length outs"] n
    by simp
  moreover have "outputSource s' 64 = None"
    using slots [rule_format, of 64] n free by simp
  ultimately show ?thesis by simp
qed

lemma setupSources_each_effect:
  assumes "settings s ''Output'' \<noteq> None"
    and "outputSource s 64 = None"
    and "\<forall>r\<in>set rebuilds. length (devicesOf r) \<le> 62"
    and "rebuilds \<noteq> []"
  shows "\<exists>s'. setupSources_each rebuilds s = Inr s' \<and>
           registeredAudioSources s' = length (devicesOf (last rebuilds)) \<and>
           outputSource s' 64 = None"
  using assms
proof (induction rebuilds arbitrary: s)
  case Nil
  then show ?case by simp
next
  case (Cons r rebuilds)
  obtain sceneName inId outId ins outs where r: "r = (sceneName, inId, outId, ins, outs)"
    by (cases r) auto
  have n: "length ins + length outs \<le> 62"
    using Cons.prems(3) r by (simp add: devicesOf_def)
  from setupSources_effect [OF Cons.prems(1), of "Scene sceneName" inId outId ins outs]
  obtain s1 where
    run: "setupSources (Scene sceneName) inId outId ins outs s = Inr s1"
    and out1: "settings s1 ''Output'' \<noteq> None"
    and slots: "\<forall>k. outputSource s1 k =
              (if 2 \<le> k \<and> k < 2 + length ins
               then Some (audioSource ''wasapi_input_capture'' ''mic-audio'' inId (ins ! (k - 2)) k)
               else if 2 + length ins \<le> k \<and> k < 2 + length ins + length outs
               then Some (audioSource ''wasapi_output_capture'' ''desktop-audio'' outId
                            (outs ! (k - (2 + length ins))) k)
               else if k = 1 then Some (Scene sceneName)
               else if 1 \<le> k \<and> k < 64 then None
               else outputSource s k)"
    by blast
  from registeredAudioSources_after [OF slots n Cons.prems(2)]
  have cnt: "registeredAudioSources s1 = length ins + length outs"
    and free1: "outputSource s1 64 = None"
    by simp_all
  show ?case
  proof (cases "rebuilds = []")
    case True
    with run cnt free1 r show ?thesis by (simp add: devicesOf_def)
  next
    case False
    have "\<forall>r\<in>set rebuilds. length (devicesOf r) \<le> 62" using Cons.prems(3) by simp
    from Cons.IH [OF out1 free1 this False] obtain s' where
      "setupSources_each rebuilds s1 = Inr s'"
      "registeredAudioSources s' = length (devicesOf (last rebuilds))"
      "outputSource s' 64 = None"
      by blast
    with run r False show ?thesis by simp
  qed
qed

text \<open>With 63 devices \<open>setupSources\<close> calls \<open>setOutputSource\<close> with the index 64 for the
  last of them.  In the table of this model, which keeps a source at that index as at any
  other, a following rebuild with no device at all leaves it there.\<close>

lemma setupSources_index_64:
  "(case setupSources_each
          [(''main'', ''all'', ''all'', replicate 63 mic, []),
           (''main'', ''all'', ''all'', [], [])] exampleEngine of
      Inl e \<Rightarrow> False
    | Inr s' \<Rightarrow>
        outputSource s' 64 = Some (audioSource ''wasapi_input_capture'' ''mic-audio'' ''all'' mic 64))"
proof -
  let ?src = "audioSource ''wasapi_input_capture'' ''mic-audio'' ''all'' mic 64"
  from setupSources_effect [OF exampleEngine_Output, of "Scene ''main''" "''all''" "''all''"
      "replicate 63 mic" "[]"]
  obtain s1 where
    run1: "setupSources (Scene ''main'') ''all'' ''all'' (replicate 63 mic) [] exampleEngine = Inr s1"
    and out1: "settings s1 ''Output'' \<noteq> None"
    and slots1: "\<forall>k. outputSource s1 k =
              (if 2 \<le> k \<and> k < 2 + length (replicate 63 mic)
               then Some (audioSource ''wasapi_input_capture'' ''mic-audio'' ''all''
                            (replicate 63 mic ! (k - 2)) k)
               else if 2 + length (replicate 63 mic) \<le> k \<and>
                       k < 2 + length (replicate 63 mic) + length ([] :: device list)
               then Some (audioSource ''wasapi_output_capture'' ''desktop-audio'' ''all''
                            (([] :: device list) ! (k - (2 + length (replicate 63 mic)))) k)
               else if k = 1 then Some (Scene ''main'')
               else if 1 \<le> k \<and> k < 64 then None
               else outputSource exampleEngine k)"
    by blast
  have s64: "outputSource s1 64 = Some ?src"
    using slots1 [rule_format, of 64] by simp
  from setupSources_effect [OF out1, of "Scene ''main''" "''all''" "''all''" "[]" "[]"]
  obtain s2 where
    run2: "setupSources (Scene ''main'') ''all'' ''all'' [] [] s1 = Inr s2"
    and slots2: "\<forall>k. outputSource s2 k =
              (if 2 \<le> k \<and> k < 2 + length ([] :: device list)
               then Some (audioSource ''wasapi_input_capture'' ''mic-audio'' ''all''
                            (([] :: device list) ! (k - 2)) k)
               else if 2 + length ([] :: device list) \<le> k \<and>
                       k < 2 + length ([] :: device list) + length ([] :: device list)
               then Some (audioSource ''wasapi_output_capture'' ''desktop-audio'' ''all''
                            (([] :: device list) ! (k - (2 + length ([] :: device list)))) k)
               else if k = 1 then Some (Scene ''main'')
               else if 1 \<le> k \<and> k < 64 then None
               else outputSource s1 k)"
    by blast
  have t64: "outputSource s2 64 = Some ?src"
    using slots2 [rule_format, of 64] s64 by simp
  with run1 run2 show ?thesis by simp
qed

section \<open>Claims about the signal protocol\<close>

lemma Promise_race_item_iff:
  "Promise_race pending deliveries = (Some signalInfo, pending', rest) \<longleftrightarrow>
     (\<exists>skipped. deliveries = map Item skipped @ Item signalInfo # rest \<and>
        length skipped = pending \<and> pending' = 0)"
proof (induction pending deliveries rule: Promise_race.induct)
  case (1 pending)
  show ?case by simp
next
  case (2 pending rest')
  show ?case by (auto simp: Cons_eq_append_conv map_eq_Cons_conv)
next
  case (3 signalInfo' rest')
  show ?case by auto
next
  case (4 pending signalInfo' rest')
  show ?case
  proof
    assume "Promise_race (Suc pending) (Item signalInfo' # rest') = (Some signalInfo, pending', rest)"
    then have "Promise_race pending rest' = (Some signalInfo, pending', rest)" by simp
    with 4 obtain skipped where "rest' = map Item skipped @ Item signalInfo # rest"
      "length skipped = pending" "pending' = 0"
      by blast
    then have "Item signalInfo' # rest' = map Item (signalInfo' # skipped) @ Item signalInfo # rest \<and>
        length (signalInfo' # skipped) = Suc pending \<and> pending' = 0"
      by simp
    then show "\<exists>skipped. Item signalInfo' # rest' = map Item skipped @ Item signalInfo # rest \<and>
        length skipped = Suc pending \<and> pending' = 0"
      by blast
  next
    assume "\<exists>skipped. Item signalInfo' # rest' = map Item skipped @ Item signalInfo # rest \<and>
        length skipped = Suc pending \<and> pending' = 0"
    then obtain skipped where s: "Item signalInfo' # rest' = map Item skipped @ Item signalInfo # rest"
      "length skipped = Suc pending" "pending' = 0"
      by blast
    then obtain x xs where x: "skipped = x # xs" by (cases skipped) auto
    with s have "rest' = map Item xs @ Item signalInfo # rest" "length xs = pending"
      by simp_all
    with 4 s(3) have "Promise_race pending rest' = (Some signalInfo, pending', rest)"
      by blast
    then show "Promise_race (Suc pending) (Item signalInfo' # rest') = (Some signalInfo, pending', rest)"
      by simp
  qed
qed

lemma assertNextSignal_ok_iff:
  "assertNextSignal value r = (None, r') \<longleftrightarrow>
     (\<exists>skipped a rest. signals r = map Item skipped @ Item a # rest \<and>
        length skipped = pendingShifts r \<and>
        signal_type a = ''recording'' \<and> signal a = value \<and>
        r' = r\<lparr>signals := rest, pendingShifts := 0\<rparr>)"
proof
  assume ok: "assertNextSignal value r = (None, r')"
  obtain x pending rest where p: "Promise_race (pendingShifts r) (signals r) = (x, pending, rest)"
    by (cases "Promise_race (pendingShifts r) (signals r)")
  from ok p obtain a where a: "x = Some a"
    by (cases x) (auto simp: assertNextSignal_def)
  from ok p a have f: "signal_type a = ''recording''" "signal a = value"
    "r' = r\<lparr>signals := rest, pendingShifts := pending\<rparr>"
    by (auto simp: assertNextSignal_def split: if_splits)
  from p a Promise_race_item_iff [of "pendingShifts r" "signals r" a pending rest]
  obtain skipped where "signals r = map Item skipped @ Item a # rest"
    "length skipped = pendingShifts r" "pending = 0"
    by blast
  with f show "\<exists>skipped a rest. signals r = map Item skipped @ Item a # rest \<and>
        length skipped = pendingShifts r \<and>
        signal_type a = ''recording'' \<and> signal a = value \<and>
        r' = r\<lparr>signals := rest, pendingShifts := 0\<rparr>"
    by blast
next
  assume "\<exists>skipped a rest. signals r = map Item skipped @ Item a # rest \<and>
        length skipped = pendingShifts r \<and>
        signal_type a = ''recording'' \<and> signal a = value \<and>
        r' = r\<lparr>signals := rest, pendingShifts := 0\<rparr>"
  then obtain skipped a rest where s: "signals r = map Item skipped @ Item a # rest"
    "length skipped = pendingShifts r" "signal_type a = ''recording''" "signal a = value"
    "r' = r\<lparr>signals := rest, pendingShifts := 0\<rparr>"
    by blast
  from s(1,2) Promise_race_item_iff [of "pendingShifts r" "signals r" a 0 rest]
  have "Promise_race (pendingShifts r) (signals r) = (Some a, 0, rest)"
    by blast
  with s(3,4,5) show "assertNextSignal value r = (None, r')"
    by (simp add: assertNextSignal_def)
qed

text \<open>
  \<open>stop\<close> is fulfilled exactly when the engine pushes, before any timer fires, first as many
  signals as there are calls of \<open>shift()\<close> left pending, which those calls take, and then
  \<open>stopping\<close>, \<open>stop\<close> and \<open>wrote\<close>, each of type \<open>recording\<close>.  With no call pending, these are
  the next three signals.
\<close>

lemma stop_ok_iff:
  "fst (stop r) = None \<longleftrightarrow>
     (\<exists>skipped a b c rest.
        signals r = map Item skipped @ Item a # Item b # Item c # rest \<and>
        length skipped = pendingShifts r \<and>
        signal_type a = ''recording'' \<and> signal a = ''stopping'' \<and>
        signal_type b = ''recording'' \<and> signal b = ''stop'' \<and>
        signal_type c = ''recording'' \<and> signal c = ''wrote'')"
proof
  assume ok: "fst (stop r) = None"
  let ?r0 = "OBS_service_stopRecording r"
  have sig0: "signals ?r0 = signals r" "pendingShifts ?r0 = pendingShifts r"
    by (simp_all add: OBS_service_stopRecording_def)
  obtain e1 r1 where a1: "assertNextSignal ''stopping'' ?r0 = (e1, r1)"
    by (cases "assertNextSignal ''stopping'' ?r0")
  have e1: "e1 = None" using ok a1 by (cases e1) (simp_all add: stop_def)
  obtain e2 r2 where a2: "assertNextSignal ''stop'' r1 = (e2, r2)"
    by (cases "assertNextSignal ''stop'' r1")
  have e2: "e2 = None" using ok a1 e1 a2 by (cases e2) (simp_all add: stop_def)
  obtain e3 r3 where a3: "assertNextSignal ''wrote'' r2 = (e3, r3)"
    by (cases "assertNextSignal ''wrote'' r2")
  have e3: "e3 = None" using ok a1 e1 a2 e2 a3 by (simp add: stop_def)
  from a1 [unfolded e1 assertNextSignal_ok_iff] sig0 obtain skipped a rest1 where
    s1: "signals r = map Item skipped @ Item a # rest1" "length skipped = pendingShifts r"
      "signal_type a = ''recording''" "signal a = ''stopping''"
      "r1 = ?r0\<lparr>signals := rest1, pendingShifts := 0\<rparr>"
    by auto
  from a2 [unfolded e2 assertNextSignal_ok_iff] s1(5) obtain b rest2 where
    s2: "rest1 = Item b # rest2" "signal_type b = ''recording''" "signal b = ''stop''"
      "r2 = r1\<lparr>signals := rest2, pendingShifts := 0\<rparr>"
    by auto
  from a3 [unfolded e3 assertNextSignal_ok_iff] s2(4) s1(5) obtain c rest3 where
    s3: "rest2 = Item c # rest3" "signal_type c = ''recording''" "signal c = ''wrote''"
    by auto
  from s1 s2 s3 show "\<exists>skipped a b c rest.
        signals r = map Item skipped @ Item a # Item b # Item c # rest \<and>
        length skipped = pendingShifts r \<and>
        signal_type a = ''recording'' \<and> signal a = ''stopping'' \<and>
        signal_type b = ''recording'' \<and> signal b = ''stop'' \<and>
        signal_type c = ''recording'' \<and> signal c = ''wrote''"
    by blast
next
  assume "\<exists>skipped a b c rest.
        signals r = map Item skipped @ Item a # Item b # Item c # rest \<and>
        length skipped = pendingShifts r \<and>
        signal_type a = ''recording'' \<and> signal a = ''stopping'' \<and>
        signal_type b = ''recording'' \<and> signal b = ''stop'' \<and>
        signal_type c = ''recording'' \<and> signal c = ''wrote''"
  then obtain skipped a b c rest where
    s: "signals r = map Item skipped @ Item a # Item b # Item c # rest"
      "length skipped = pendingShifts r"
      "signal_type a = ''recording''" "signal a = ''stopping''"
      "signal_type b = ''recording''" "signal b = ''stop''"
      "signal_type c = ''recording''" "signal c = ''wrote''"
    by blast
  let ?r0 = "OBS_service_stopRecording r"
  let ?r1 = "?r0\<lparr>signals := Item b # Item c # rest, pendingShifts := 0\<rparr>"
  let ?r2 = "?r1\<lparr>signals := Item c # rest, pendingShifts := 0\<rparr>"
  let ?r3 = "?r2\<lparr>signals := rest, pendingShifts := 0\<rparr>"
  have sig0: "signals ?r0 = signals r" "pendingShifts ?r0 = pendingShifts r"
    by (simp_all add: OBS_service_stopRecording_def)
  have a1: "assertNextSignal ''stopping'' ?r0 = (None, ?r1)"
    unfolding assertNextSignal_ok_iff sig0 using s by blast
  have a2: "assertNextSignal ''stop'' ?r1 = (None, ?r2)"
    unfolding assertNextSignal_ok_iff using s(5,6)
    by (intro exI [of _ "[]"] exI [of _ b] exI [of _ "Item c # rest"]) simp
  have a3: "assertNextSignal ''wrote'' ?r2 = (None, ?r3)"
    unfolding assertNextSignal_ok_iff using s(7,8)
    by (intro exI [of _ "[]"] exI [of _ c] exI [of _ rest]) simp
  show "fst (stop r) = None"
    unfolding stop_def a1 prod.case option.case a2 a3 by simp
qed

lemma stop_ok_iff_nothing_pending:
  assumes "pendingShifts r = 0"
  shows "fst (stop r) = None \<longleftrightarrow>
     (\<exists>a b c rest. signals r = Item a # Item b # Item c # rest \<and>
        signal_type a = ''recording'' \<and> signal a = ''stopping'' \<and>
        signal_type b = ''recording'' \<and> signal b = ''stop'' \<and>
        signal_type c = ''recording'' \<and> signal c = ''wrote'')"
  unfolding stop_ok_iff using assms by auto

lemma stop_issues_command: "stopRecordingCalls (snd (stop r)) = stopRecordingCalls r + 1"
  by (auto simp: stop_def assertNextSignal_def OBS_service_stopRecording_def
           split: prod.splits option.splits)

lemmas signal_eval =
  stop_def start_def assertNextSignal_def OBS_service_stopRecording_def
  OBS_service_startRecording_def exampleRecorder_def recording_def

lemma stop_examples:
  "fst (stop (exampleRecorder True [recording ''stopping'', recording ''stop'', recording ''wrote''])) = None"
  "fst (stop (exampleRecorder True [recording ''stop'', recording ''stopping'', recording ''wrote'']))
     = Some UnexpectedSignalValue"
  "fst (stop (exampleRecorder True [recording ''stopping'', recording ''stop''])) = Some (SignalTimeout ''wrote'')"
  "fst (stop (exampleRecorder True [recording ''stopping'', Timer, recording ''stop'', recording ''wrote'']))
     = Some (SignalTimeout ''stop'')"
  "fst (stop (exampleRecorder True
          [Item \<lparr>signal_type = ''streaming'', signal = ''stopping''\<rparr>, recording ''stop'', recording ''wrote'']))
     = Some UnexpectedSignalType"
  by (simp_all add: signal_eval)

text \<open>
  Claim C3.  The engine is initialised and stays silent for the 5000 ms of the race of
  \<open>start\<close>, which is rejected with the timeout and leaves its \<open>shift()\<close> pending.  Then \<open>stop\<close>
  is called and the engine pushes \<open>stopping\<close>, \<open>stop\<close> and \<open>wrote\<close>, each of type \<open>recording\<close>
  and before any timer fires.  The pending \<open>shift()\<close> takes \<open>stopping\<close>; the first assertion of
  \<open>stop\<close> is served \<open>stop\<close>, and \<open>stop\<close> is rejected for a wrong signal value, with \<open>wrote\<close>
  left in the queue.  With no \<open>shift()\<close> pending, \<open>stop\<close> is fulfilled on the same three
  signals.
\<close>

theorem stop_after_timed_out_start_is_rejected:
  "start (exampleRecorder True
            [Timer, recording ''stopping'', recording ''stop'', recording ''wrote''])
     = (Some (SignalTimeout ''start''),
        \<lparr>obsInitialized = True, startRecordingCalls = 1, stopRecordingCalls = 0,
         signals = [recording ''stopping'', recording ''stop'', recording ''wrote''],
         pendingShifts = 1, unhandled = []\<rparr>) \<and>
   stop \<lparr>obsInitialized = True, startRecordingCalls = 1, stopRecordingCalls = 0,
         signals = [recording ''stopping'', recording ''stop'', recording ''wrote''],
         pendingShifts = 1, unhandled = []\<rparr>
     = (Some UnexpectedSignalValue,
        \<lparr>obsInitialized = True, startRecordingCalls = 1, stopRecordingCalls = 1,
         signals = [recording ''wrote''], pendingShifts = 0, unhandled = []\<rparr>) \<and>
   fst (stop (exampleRecorder True
                [recording ''stopping'', recording ''stop'', recording ''wrote''])) = None"
  by (simp add: signal_eval)

lemma start_not_initialised:
  "\<not> obsInitialized r \<Longrightarrow> start r = (Some NotInitialised, r)"
  by (simp add: start_def)

lemma start_initialised:
  assumes "obsInitialized r"
  shows "startRecordingCalls (snd (start r)) = startRecordingCalls r + 1"
    and "fst (start r) = None \<longleftrightarrow>
           (\<exists>skipped a rest. signals r = map Item skipped @ Item a # rest \<and>
              length skipped = pendingShifts r \<and>
              signal_type a = ''recording'' \<and> signal a = ''start'')"
proof -
  show "startRecordingCalls (snd (start r)) = startRecordingCalls r + 1"
    using assms
    by (auto simp: start_def assertNextSignal_def OBS_service_startRecording_def
             split: prod.splits option.splits)
  let ?r0 = "OBS_service_startRecording r"
  have sig0: "signals ?r0 = signals r" "pendingShifts ?r0 = pendingShifts r"
    by (simp_all add: OBS_service_startRecording_def)
  have "fst (start r) = None \<longleftrightarrow> (\<exists>r'. assertNextSignal ''start'' ?r0 = (None, r'))"
    using assms by (cases "assertNextSignal ''start'' ?r0") (simp add: start_def)
  also have "\<dots> \<longleftrightarrow> (\<exists>skipped a rest. signals r = map Item skipped @ Item a # rest \<and>
              length skipped = pendingShifts r \<and>
              signal_type a = ''recording'' \<and> signal a = ''start'')"
    unfolding assertNextSignal_ok_iff sig0 by blast
  finally show "fst (start r) = None \<longleftrightarrow>
           (\<exists>skipped a rest. signals r = map Item skipped @ Item a # rest \<and>
              length skipped = pendingShifts r \<and>
              signal_type a = ''recording'' \<and> signal a = ''start'')" .
qed

lemma start_examples:
  "fst (start (exampleRecorder True [recording ''start''])) = None"
  "fst (start (exampleRecorder True [])) = Some (SignalTimeout ''start'')"
  "fst (start (exampleRecorder True [Timer, recording ''start''])) = Some (SignalTimeout ''start'')"
  "fst (start (exampleRecorder True [recording ''stop''])) = Some UnexpectedSignalValue"
  "fst (start (exampleRecorder True [Item \<lparr>signal_type = ''streaming'', signal = ''start''\<rparr>]))
     = Some UnexpectedSignalType"
  by (simp_all add: signal_eval)

lemma ObsRecorder_start_always_fulfilled:
  "obsInitialized r \<Longrightarrow> fst (ObsRecorder_start ObsSignal_Start r) = None"
  by (auto simp: ObsRecorder_start_def split: prod.splits option.splits)

text \<open>
  Claim C4.  With the engine initialised and no signal ever delivered, \<open>ObsRecorder.start\<close> of
  \<open>src/main/obsRecorder.ts\<close> issues the native start command and its promise is fulfilled;
  the timeout of the assertion it did not await stays behind as an unhandled rejection.  The
  revision of \<open>start\<close> that awaits the assertion is rejected with that timeout on the same
  input.  Either way the \<open>shift()\<close> of the race stays pending.
\<close>

theorem ObsRecorder_start_fulfilled_without_signal:
  "ObsRecorder_start ''start'' (exampleRecorder True []) =
     (None, \<lparr>obsInitialized = True, startRecordingCalls = 1, stopRecordingCalls = 0,
             signals = [], pendingShifts = 1, unhandled = [SignalTimeout ''start'']\<rparr>) \<and>
   start (exampleRecorder True []) =
     (Some (SignalTimeout ''start''),
      \<lparr>obsInitialized = True, startRecordingCalls = 1, stopRecordingCalls = 0,
       signals = [], pendingShifts = 1, unhandled = []\<rparr>)"
  by (simp add: ObsRecorder_start_def start_def assertNextSignal_def OBS_service_startRecording_def
        exampleRecorder_def)

end
